theory Spec2Isabelle
  imports Complex_Main "HOL-Library.Word" "HOL-Library.Log_Nat"
begin

unbundle bit_operations_syntax

section \<open>Go's numbers\<close>

text \<open>
  Go's \<^verbatim>\<open>int\<close> is a 64-bit two's complement integer: \<open>64 word\<close>, read through
  \<open>sint\<close>; \<open>+\<close>, \<open>-\<close> and \<open>*\<close> wrap as in Go. A \<^verbatim>\<open>time.Time\<close> is its monotonic clock
  reading in nanoseconds, a \<^verbatim>\<open>time.Duration\<close> a number of nanoseconds.
\<close>

type_synonym go_int = "64 word"
type_synonym Time = int
type_synonym Duration = int

subsection \<open>float64\<close>

text \<open>
  A finite \<^verbatim>\<open>float64\<close> is modelled by the real number it denotes, and every
  floating-point operation by the exact operation followed by IEEE 754 rounding to the
  nearest binary64 value, ties to the even mantissa (\<open>round64\<close>). For \<open>x > 0\<close>,
  \<open>binade x\<close> is the exponent \<open>E\<close> with \<open>2^E \<le> x < 2^(E+1)\<close>; the last mantissa bit
  then weighs \<open>2^(E - 52)\<close>, and never less than \<open>2^(-1074)\<close> (subnormal numbers).
  Each operation is rounded on its own, as the compiler for amd64 does (no fused
  multiply-add). Overflow to an infinity is not modelled: the limiter multiplies a
  number of seconds below \<open>2^34\<close> by a rate below \<open>2^63\<close> and adds the product to a
  balance, all far below \<open>2^1024\<close>, and it never produces a NaN.
\<close>

definition round_even :: "real \<Rightarrow> int" where
  "round_even y =
     (let f = \<lfloor>y\<rfloor>; r = y - real_of_int f
      in if r < 1 / 2 then f
         else if 1 / 2 < r then f + 1
         else if even f then f else f + 1)"

definition binade :: "real \<Rightarrow> int" where
  "binade x = (if 1 \<le> x then bitlen \<lfloor>x\<rfloor> - 1 else - bitlen (\<lceil>1 / x\<rceil> - 1))"

definition ulp_exp :: "real \<Rightarrow> int" where
  "ulp_exp x = max (binade x - 52) (- 1074)"

definition round_pos :: "real \<Rightarrow> real" where
  "round_pos x = (let e = ulp_exp x in real_of_int (round_even (x / 2 powi e)) * 2 powi e)"

definition round64 :: "real \<Rightarrow> real" where
  "round64 x = (if x = 0 then 0 else if 0 < x then round_pos x else - round_pos (- x))"

definition fadd :: "real \<Rightarrow> real \<Rightarrow> real" where
  "fadd x y = round64 (x + y)"

definition fsub :: "real \<Rightarrow> real \<Rightarrow> real" where
  "fsub x y = round64 (x - y)"

definition fmul :: "real \<Rightarrow> real \<Rightarrow> real" where
  "fmul x y = round64 (x * y)"

definition fdiv :: "real \<Rightarrow> real \<Rightarrow> real" where
  "fdiv x y = round64 (x / y)"

text \<open>
  The conversions. \<^verbatim>\<open>float64(n)\<close> rounds the integer to the nearest binary64 value.
  \<^verbatim>\<open>int(x)\<close> truncates toward zero; when the truncated value does not fit in 64 bits
  Go leaves the result to the implementation, and amd64 gives the smallest integer.
\<close>

definition float64_of_int :: "int \<Rightarrow> real" where
  "float64_of_int n = round64 (real_of_int n)"

definition float64 :: "go_int \<Rightarrow> real" where
  "float64 n = float64_of_int (sint n)"

definition trunc_toward_zero :: "real \<Rightarrow> int" where
  "trunc_toward_zero x = (if 0 \<le> x then \<lfloor>x\<rfloor> else \<lceil>x\<rceil>)"

definition int_of_float64 :: "real \<Rightarrow> go_int" where
  "int_of_float64 x =
     (let t = trunc_toward_zero x
      in if - (2 ^ 63) \<le> t \<and> t < 2 ^ 63 then word_of_int t else word_of_int (- (2 ^ 63)))"

subsection \<open>Package time\<close>

definition maxDuration :: Duration where
  "maxDuration = 2 ^ 63 - 1"

definition minDuration :: Duration where
  "minDuration = - (2 ^ 63)"

definition Second :: Duration where
  "Second = 1000000000"

definition Minute :: Duration where
  "Minute = 60 * Second"

text \<open>\<^verbatim>\<open>t.Sub(u)\<close>: the difference, saturated to the range of a Duration.\<close>

definition time_Sub :: "Time \<Rightarrow> Time \<Rightarrow> Duration" where
  "time_Sub t u =
     (let d = t - u
      in if maxDuration < d then maxDuration
         else if d < minDuration then minDuration
         else d)"

text \<open>Go's integer division and remainder, which truncate toward zero.\<close>

definition go_quo :: "int \<Rightarrow> int \<Rightarrow> int" where
  "go_quo a b = sgn a * sgn b * (\<bar>a\<bar> div \<bar>b\<bar>)"

definition go_rem :: "int \<Rightarrow> int \<Rightarrow> int" where
  "go_rem a b = a - b * go_quo a b"

text \<open>
  \<^verbatim>\<open>d.Seconds()\<close>, as package time computes it:
  \<^verbatim>\<open>sec := d / Second; nsec := d % Second; return float64(sec) + float64(nsec)/1e9\<close>.
\<close>

definition Seconds :: "Duration \<Rightarrow> real" where
  "Seconds d =
     (let sec = go_quo d Second;
          nsec = go_rem d Second
      in fadd (float64_of_int sec) (fdiv (float64_of_int nsec) 1000000000))"

section \<open>Package ratelimiter: the token bucket\<close>

record bucket =
  tokens :: real
  lastUpdate :: Time

record TokenBucket =
  buckets :: "string \<rightharpoonup> bucket"
  rate :: go_int
  capacity :: go_int
  cleanup :: Duration

record Config =
  Rate :: go_int
  Capacity :: go_int
  CleanupInterval :: Duration

definition DefaultConfig :: Config where
  "DefaultConfig = \<lparr>Rate = 10, Capacity = 20, CleanupInterval = 5 * Minute\<rparr>"

text \<open>
  \<^verbatim>\<open>New\<close>: the three defaults are applied in the order of the source, so the default
  capacity doubles the rate that was already defaulted. The background sweep that
  \<^verbatim>\<open>New\<close> starts is the operation \<open>cleanup_old_buckets\<close> below, run by the scheduler.
\<close>

definition New :: "Config \<Rightarrow> TokenBucket" where
  "New cfg =
     (let r = (if sint (Rate cfg) \<le> 0 then 10 else Rate cfg);
          c = (if sint (Capacity cfg) \<le> 0 then r * 2 else Capacity cfg);
          ci = (if CleanupInterval cfg \<le> 0 then 5 * Minute else CleanupInterval cfg)
      in \<lparr>buckets = Map.empty, rate = r, capacity = c, cleanup = ci\<rparr>)"

text \<open>
  \<^verbatim>\<open>Allow\<close>, under the lock. \<open>now\<close> is the reading of \<^verbatim>\<open>time.Now()\<close> the call takes.
  The result is the pair the source returns and the limiter after the call. The
  balance is a \<^verbatim>\<open>float64\<close>: \<^verbatim>\<open>b.tokens += elapsed * float64(tb.rate)\<close> is a rounded
  product followed by a rounded sum, and \<^verbatim>\<open>b.tokens--\<close> a rounded difference.
\<close>

definition Allow :: "TokenBucket \<Rightarrow> string \<Rightarrow> Time \<Rightarrow> (bool \<times> go_int) \<times> TokenBucket" where
  "Allow tb accessToken now =
     (case buckets tb accessToken of
        None \<Rightarrow>
          ((True, capacity tb - 1),
           tb\<lparr>buckets := (buckets tb)(accessToken \<mapsto>
                 \<lparr>tokens = float64 (capacity tb - 1), lastUpdate = now\<rparr>)\<rparr>)
      | Some b \<Rightarrow>
          (let elapsed = Seconds (time_Sub now (lastUpdate b));
               b1 = b\<lparr>tokens := fadd (tokens b) (fmul elapsed (float64 (rate tb)))\<rparr>;
               b2 = (if float64 (capacity tb) < tokens b1
                     then b1\<lparr>tokens := float64 (capacity tb)\<rparr> else b1);
               b3 = b2\<lparr>lastUpdate := now\<rparr>
           in if 1 \<le> tokens b3
              then (let b4 = b3\<lparr>tokens := fsub (tokens b3) 1\<rparr>
                    in ((True, int_of_float64 (tokens b4)),
                        tb\<lparr>buckets := (buckets tb)(accessToken \<mapsto> b4)\<rparr>))
              else ((False, 0), tb\<lparr>buckets := (buckets tb)(accessToken \<mapsto> b3)\<rparr>)))"

text \<open>\<^verbatim>\<open>Reset\<close>: delete the key from the map.\<close>

definition Reset :: "TokenBucket \<Rightarrow> string \<Rightarrow> TokenBucket" where
  "Reset tb accessToken = tb\<lparr>buckets := (buckets tb)(accessToken := None)\<rparr>"

text \<open>
  \<^verbatim>\<open>cleanup_old_buckets\<close>: one sweep, deleting every bucket last updated before
  \<open>now - cleanup\<close>.
\<close>

definition cleanup_old_buckets :: "TokenBucket \<Rightarrow> Time \<Rightarrow> TokenBucket" where
  "cleanup_old_buckets tb now =
     (let threshold = now + (- cleanup tb)
      in tb\<lparr>buckets := (\<lambda>token.
              case buckets tb token of
                None \<Rightarrow> None
              | Some b \<Rightarrow> if lastUpdate b < threshold then None else Some b)\<rparr>)"

text \<open>\<^verbatim>\<open>Stats\<close>: the number of buckets.\<close>

definition Stats :: "TokenBucket \<Rightarrow> nat" where
  "Stats tb = card (dom (buckets tb))"

text \<open>
  A run of the limiter: the operations are serialised by the mutex, and each takes its
  clock reading under the lock, so the readings never decrease. An event carries the
  number of nanoseconds by which the monotonic clock has advanced since the previous
  reading.
\<close>

datatype limiter_op = OpAllow string | OpReset string | OpCleanup

fun limiter_step :: "TokenBucket \<Rightarrow> Time \<Rightarrow> limiter_op \<Rightarrow> TokenBucket" where
  "limiter_step tb now (OpAllow k) = snd (Allow tb k now)"
| "limiter_step tb now (OpReset k) = Reset tb k"
| "limiter_step tb now OpCleanup = cleanup_old_buckets tb now"

fun limiter_run :: "TokenBucket \<Rightarrow> Time \<Rightarrow> (nat \<times> limiter_op) list \<Rightarrow> TokenBucket \<times> Time" where
  "limiter_run tb t [] = (tb, t)"
| "limiter_run tb t ((d, ev) # evs) =
     limiter_run (limiter_step tb (t + int d) ev) (t + int d) evs"

section \<open>Package sso: the identity client\<close>

text \<open>
  A Go \<^verbatim>\<open>error\<close> value: a gRPC status (\<^verbatim>\<open>status.Error(code, msg)\<close>), an error
  wrapped by \<^verbatim>\<open>fmt.Errorf("%s: %w", op, err)\<close>, or an error that comes from outside
  (the network, the remote service, the business handler).
\<close>

datatype Code = Unauthenticated | ResourceExhausted | Internal | NotFound

datatype error = StatusError Code string | Wrapped string error | External string

record UserInfo =
  UserID :: "64 word"
  Username :: string
  Email :: string
  PhotoURL :: string
  Role :: "32 word"
  AppID :: "32 word"
  Balance :: "64 word"

text \<open>The fields of the generated \<^verbatim>\<open>ssov1.ValidateJWTResponse\<close> that the source reads.\<close>

record ValidateJWTResponse =
  UserId :: "64 word"
  resp_Username :: string
  resp_Email :: string
  PhotoUrl :: string
  resp_Role :: "32 word"
  AppId :: "32 word"
  resp_Balance :: "64 word"

text \<open>
  A \<^verbatim>\<open>context.Context\<close>, as far as the source uses it: the incoming metadata
  (\<^verbatim>\<open>metadata.FromIncomingContext\<close>; \<open>None\<close> when there is none), the key-value pairs
  appended to the outgoing metadata, and the values stored under the two context keys
  of package grpc (\<^verbatim>\<open>ctx.Value(key)\<close>; \<open>None\<close> when no value is bound).
\<close>

type_synonym MD = "string \<rightharpoonup> string list"

record Context =
  incomingMD :: "MD option"
  outgoingMD :: "(string \<times> string) list"
  UserContextKey :: "UserInfo option"
  AccessTokenContextKey :: "string option"

definition AuthorizationHeader :: string where
  "AuthorizationHeader = ''authorization''"

definition BearerPrefix :: string where
  "BearerPrefix = ''Bearer ''"

definition contextWithAccessToken :: "Context \<Rightarrow> string \<Rightarrow> Context" where
  "contextWithAccessToken ctx accessToken =
     ctx\<lparr>outgoingMD := outgoingMD ctx @ [(AuthorizationHeader, BearerPrefix @ accessToken)]\<rparr>"

text \<open>
  The client. Its remote call \<^verbatim>\<open>userClient.ValidateJWT\<close> is outside the repository:
  it is a field of the client, a function of the outgoing context that reads and
  changes the state \<open>'e\<close> of everything outside the interceptor (the network, the
  identity service, the business handler's resources).
\<close>

record 'e Client =
  userClient_ValidateJWT :: "Context \<Rightarrow> 'e \<Rightarrow> (error + ValidateJWTResponse) \<times> 'e"

definition ValidateJWT ::
  "'e Client \<Rightarrow> Context \<Rightarrow> string \<Rightarrow> 'e \<Rightarrow> (error + ValidateJWTResponse) \<times> 'e" where
  "ValidateJWT c ctx accessToken e =
     (let ctx' = contextWithAccessToken ctx accessToken;
          (r, e') = userClient_ValidateJWT c ctx' e
      in case r of
           Inl err \<Rightarrow> (Inl (Wrapped ''clients.sso.ValidateJWT'' err), e')
         | Inr resp \<Rightarrow> (Inr resp, e'))"

subsection \<open>The constructor\<close>

text \<open>
  \<^verbatim>\<open>sso.New\<close>. The dial options and \<^verbatim>\<open>grpc.DialContext\<close> belong to the gRPC library:
  the dialer is a parameter, a function of the context's deadline, the target and the
  options that reads and changes the outside state and returns a connection or an
  error. A context is represented by its deadline (\<open>None\<close> for
  \<^verbatim>\<open>context.Background()\<close>); \<open>now\<close> is the clock reading \<^verbatim>\<open>context.WithTimeout\<close> takes.
  The client that \<^verbatim>\<open>New\<close> returns is represented by the connection it wraps.
\<close>

datatype DialOption = WithTransportCredentials_insecure | WithBlock

record sso_Config =
  Address :: string
  Timeout :: Duration
  RetriesCount :: go_int
  Insecure :: bool

type_synonym ('c, 'e) Dialer =
  "Time option \<Rightarrow> string \<Rightarrow> DialOption list \<Rightarrow> 'e \<Rightarrow> (error + 'c) \<times> 'e"

definition context_WithTimeout :: "Time option \<Rightarrow> Time \<Rightarrow> Duration \<Rightarrow> Time option" where
  "context_WithTimeout parent now timeout =
     (case parent of
        None \<Rightarrow> Some (now + timeout)
      | Some d \<Rightarrow> Some (min d (now + timeout)))"

definition sso_New ::
  "('c, 'e) Dialer \<Rightarrow> Time \<Rightarrow> Time option \<Rightarrow> sso_Config \<Rightarrow> 'e \<Rightarrow> (error + 'c) \<times> 'e" where
  "sso_New DialContext now ctx cfg e =
     (let opts = [];
          opts = (if Insecure cfg then opts @ [WithTransportCredentials_insecure] else opts);
          dialCtx = context_WithTimeout ctx now (Timeout cfg);
          (r, e') = DialContext dialCtx (Address cfg) opts e
      in case r of
           Inl err \<Rightarrow>
             (Inl (Wrapped ''clients.sso.New: failed to connect to SSO service'' err), e')
         | Inr conn \<Rightarrow> (Inr conn, e'))"

text \<open>
  The part of \<^verbatim>\<open>app.New\<close> that creates the client, from the address, timeout and
  transport mode of the configuration: one call of \<^verbatim>\<open>sso.New\<close> on the background
  context; on an error the application goes on without a client.
\<close>

definition app_New_ssoClient ::
  "('c, 'e) Dialer \<Rightarrow> Time \<Rightarrow> string \<Rightarrow> Duration \<Rightarrow> bool \<Rightarrow> 'e \<Rightarrow> 'c option \<times> 'e" where
  "app_New_ssoClient DialContext now address timeout insecure e =
     (let (r, e') = sso_New DialContext now None
                      \<lparr>Address = address, Timeout = timeout, RetriesCount = 0,
                       Insecure = insecure\<rparr> e
      in case r of Inl err \<Rightarrow> (None, e') | Inr client \<Rightarrow> (Some client, e'))"

section \<open>Package grpc: the authentication interceptor\<close>

text \<open>\<^verbatim>\<open>strings.HasPrefix\<close> and \<^verbatim>\<open>strings.TrimPrefix\<close>, on byte strings.\<close>

definition HasPrefix :: "string \<Rightarrow> string \<Rightarrow> bool" where
  "HasPrefix s p = (length p \<le> length s \<and> take (length p) s = p)"

definition TrimPrefix :: "string \<Rightarrow> string \<Rightarrow> string" where
  "TrimPrefix s p = (if HasPrefix s p then drop (length p) s else s)"

text \<open>\<^verbatim>\<open>md.Get(k)\<close> for a lower-case key: the values stored under it, none when absent.\<close>

definition md_Get :: "MD \<Rightarrow> string \<Rightarrow> string list" where
  "md_Get md k = (case md k of None \<Rightarrow> [] | Some vs \<Rightarrow> vs)"

definition invalid_format_message :: string where
  "invalid_format_message =
     ''invalid authorization format, expected '' @ [CHR 0x27] @ ''Bearer <token>'' @ [CHR 0x27]"

definition extractAccessToken :: "Context \<Rightarrow> error + string" where
  "extractAccessToken ctx =
     (case incomingMD ctx of
        None \<Rightarrow> Inl (StatusError Unauthenticated ''missing metadata'')
      | Some md \<Rightarrow>
          (let values = md_Get md ''authorization''
           in if length values = 0
              then Inl (StatusError Unauthenticated ''missing authorization header'')
              else
                (let authHeader = values ! 0
                 in if \<not> HasPrefix authHeader ''Bearer ''
                    then Inl (StatusError Unauthenticated invalid_format_message)
                    else Inr (TrimPrefix authHeader ''Bearer ''))))"

text \<open>
  The interceptor. \<open>rateLimiter\<close> is the limiter the pointer refers to, \<open>None\<close> for a
  nil pointer; \<open>publicMethods\<close> is a Go \<^verbatim>\<open>map[string]bool\<close>, whose index expression
  gives \<^verbatim>\<open>false\<close> for a key that is absent.
\<close>

record 'e AuthInterceptor =
  ssoClient :: "'e Client"
  rateLimiter :: "TokenBucket option"
  publicMethods :: "string \<rightharpoonup> bool"

definition map_index :: "(string \<rightharpoonup> bool) \<Rightarrow> string \<Rightarrow> bool" where
  "map_index m k = (case m k of None \<Rightarrow> False | Some b \<Rightarrow> b)"

definition NewAuthInterceptor :: "'e Client \<Rightarrow> TokenBucket option \<Rightarrow> 'e AuthInterceptor" where
  "NewAuthInterceptor c rl = \<lparr>ssoClient = c, rateLimiter = rl, publicMethods = Map.empty\<rparr>"

fun SetPublicMethods :: "'e AuthInterceptor \<Rightarrow> string list \<Rightarrow> 'e AuthInterceptor" where
  "SetPublicMethods i [] = i"
| "SetPublicMethods i (method # methods) =
     SetPublicMethods (i\<lparr>publicMethods := (publicMethods i)(method \<mapsto> True)\<rparr>) methods"

record ServerInfo =
  FullMethod :: string

definition newUserInfo :: "ValidateJWTResponse \<Rightarrow> UserInfo" where
  "newUserInfo userResp =
     \<lparr>UserID = UserId userResp,
      Username = resp_Username userResp,
      Email = resp_Email userResp,
      PhotoURL = PhotoUrl userResp,
      Role = resp_Role userResp,
      AppID = AppId userResp,
      Balance = resp_Balance userResp\<rparr>"

text \<open>
  A unary handler returns Go's pair \<^verbatim>\<open>(interface{}, error)\<close> and changes the outside
  state. The interceptor returns that pair, the interceptor after the call (its limiter
  is mutated in place) and the outside state after the call. \<open>now\<close> is the clock reading
  that \<^verbatim>\<open>Allow\<close> takes if it is called. The calls to the logger are left out.
\<close>

type_synonym ('req, 'resp, 'e) UnaryHandler =
  "Context \<Rightarrow> 'req \<Rightarrow> 'e \<Rightarrow> ('resp option \<times> error option) \<times> 'e"

definition UnaryInterceptor ::
  "'e AuthInterceptor \<Rightarrow> Time \<Rightarrow> Context \<Rightarrow> 'req \<Rightarrow> ServerInfo \<Rightarrow>
   ('req, 'resp, 'e) UnaryHandler \<Rightarrow> 'e \<Rightarrow>
   ('resp option \<times> error option) \<times> 'e AuthInterceptor \<times> 'e" where
  "UnaryInterceptor i now ctx req info handler e =
     (if map_index (publicMethods i) (FullMethod info)
      then (let (r, e') = handler ctx req e in (r, i, e'))
      else
        case extractAccessToken ctx of
          Inl err \<Rightarrow> ((None, Some err), i, e)
        | Inr accessToken \<Rightarrow>
            (let (allowed, i1) =
                   (case rateLimiter i of
                      None \<Rightarrow> (True, i)
                    | Some tb \<Rightarrow>
                        (let ((allowed, remaining), tb') = Allow tb accessToken now
                         in (allowed, i\<lparr>rateLimiter := Some tb'\<rparr>)))
             in if \<not> allowed
                then ((None, Some (StatusError ResourceExhausted
                                     ''rate limit exceeded, please try again later'')),
                      i1, e)
                else
                  (let (v, e1) = ValidateJWT (ssoClient i) ctx accessToken e
                   in case v of
                        Inl err \<Rightarrow>
                          ((None, Some (StatusError Unauthenticated ''invalid or expired token'')),
                           i1, e1)
                      | Inr userResp \<Rightarrow>
                          (let userInfo = newUserInfo userResp;
                               ctx1 = ctx\<lparr>UserContextKey := Some userInfo\<rparr>;
                               ctx2 = ctx1\<lparr>AccessTokenContextKey := Some accessToken\<rparr>;
                               (r, e2) = handler ctx2 req e1
                           in (r, i1, e2)))))"

text \<open>
  A server stream, as far as the interceptor uses it: the context its \<^verbatim>\<open>Context()\<close>
  method returns, and the rest. \<^verbatim>\<open>wrappedServerStream\<close> replaces the context only.
\<close>

record 'm ServerStream =
  stream_Context :: Context
  stream_rest :: 'm

type_synonym ('srv, 'm, 'e) StreamHandler =
  "'srv \<Rightarrow> 'm ServerStream \<Rightarrow> 'e \<Rightarrow> error option \<times> 'e"

definition wrappedServerStream :: "'m ServerStream \<Rightarrow> Context \<Rightarrow> 'm ServerStream" where
  "wrappedServerStream stream ctx = stream\<lparr>stream_Context := ctx\<rparr>"

definition StreamInterceptor ::
  "'e AuthInterceptor \<Rightarrow> Time \<Rightarrow> 'srv \<Rightarrow> 'm ServerStream \<Rightarrow> ServerInfo \<Rightarrow>
   ('srv, 'm, 'e) StreamHandler \<Rightarrow> 'e \<Rightarrow> error option \<times> 'e AuthInterceptor \<times> 'e" where
  "StreamInterceptor i now srv stream info handler e =
     (if map_index (publicMethods i) (FullMethod info)
      then (let (r, e') = handler srv stream e in (r, i, e'))
      else
        (let ctx = stream_Context stream
         in case extractAccessToken ctx of
              Inl err \<Rightarrow> (Some err, i, e)
            | Inr accessToken \<Rightarrow>
                (let (allowed, i1) =
                       (case rateLimiter i of
                          None \<Rightarrow> (True, i)
                        | Some tb \<Rightarrow>
                            (let ((allowed, _), tb') = Allow tb accessToken now
                             in (allowed, i\<lparr>rateLimiter := Some tb'\<rparr>)))
                 in if \<not> allowed
                    then (Some (StatusError ResourceExhausted
                                  ''rate limit exceeded, please try again later''),
                          i1, e)
                    else
                      (let (v, e1) = ValidateJWT (ssoClient i) ctx accessToken e
                       in case v of
                            Inl err \<Rightarrow>
                              (Some (StatusError Unauthenticated ''invalid or expired token''),
                               i1, e1)
                          | Inr userResp \<Rightarrow>
                              (let userInfo = newUserInfo userResp;
                                   wrappedStream =
                                     wrappedServerStream stream
                                       ((ctx\<lparr>UserContextKey := Some userInfo\<rparr>)
                                           \<lparr>AccessTokenContextKey := Some accessToken\<rparr>);
                                   (r, e2) = handler srv wrappedStream e1
                               in (r, i1, e2))))))"

definition GetUserFromContext :: "Context \<Rightarrow> UserInfo option" where
  "GetUserFromContext ctx = UserContextKey ctx"

definition GetAccessTokenFromContext :: "Context \<Rightarrow> string option" where
  "GetAccessTokenFromContext ctx = AccessTokenContextKey ctx"

section \<open>Package grpcapp: the chain builder\<close>

text \<open>
  An interceptor takes the context, the request, the per-call info and the next
  handler; a handler takes the context and the request. The result type \<open>'r\<close> is
  arbitrary (it may be a state transformer). The loop of the source runs the index
  from \<open>len(interceptors) - 1\<close> down to 0; \<open>chainUnary_loop its info n h\<close> is the loop
  with \<open>n\<close> iterations left, the next index being \<open>n - 1\<close>, and \<open>h\<close> the value of
  \<^verbatim>\<open>chainHandler\<close>.
\<close>

type_synonym ('c, 'q, 'i, 'r) Interceptor = "'c \<Rightarrow> 'q \<Rightarrow> 'i \<Rightarrow> ('c \<Rightarrow> 'q \<Rightarrow> 'r) \<Rightarrow> 'r"

fun chainUnary_loop ::
  "('c, 'q, 'i, 'r) Interceptor list \<Rightarrow> 'i \<Rightarrow> nat \<Rightarrow> ('c \<Rightarrow> 'q \<Rightarrow> 'r) \<Rightarrow> ('c \<Rightarrow> 'q \<Rightarrow> 'r)" where
  "chainUnary_loop interceptors info 0 chainHandler = chainHandler"
| "chainUnary_loop interceptors info (Suc i) chainHandler =
     (let innerHandler = chainHandler;
          currentInterceptor = interceptors ! i
      in chainUnary_loop interceptors info i
           (\<lambda>currentCtx currentReq. currentInterceptor currentCtx currentReq info innerHandler))"

definition chainUnaryInterceptors ::
  "('c, 'q, 'i, 'r) Interceptor list \<Rightarrow> ('c, 'q, 'i, 'r) Interceptor" where
  "chainUnaryInterceptors interceptors =
     (\<lambda>ctx req info handler.
        chainUnary_loop interceptors info (length interceptors) handler ctx req)"

fun chainStream_loop ::
  "('c, 'q, 'i, 'r) Interceptor list \<Rightarrow> 'i \<Rightarrow> nat \<Rightarrow> ('c \<Rightarrow> 'q \<Rightarrow> 'r) \<Rightarrow> ('c \<Rightarrow> 'q \<Rightarrow> 'r)" where
  "chainStream_loop interceptors info 0 chainHandler = chainHandler"
| "chainStream_loop interceptors info (Suc i) chainHandler =
     (let innerHandler = chainHandler;
          currentInterceptor = interceptors ! i
      in chainStream_loop interceptors info i
           (\<lambda>currentSrv currentStream.
              currentInterceptor currentSrv currentStream info innerHandler))"

definition chainStreamInterceptors ::
  "('c, 'q, 'i, 'r) Interceptor list \<Rightarrow> ('c, 'q, 'i, 'r) Interceptor" where
  "chainStreamInterceptors interceptors =
     (\<lambda>srv stream info handler.
        chainStream_loop interceptors info (length interceptors) handler srv stream)"

text \<open>
  The nested application of the specification: the first interceptor of the list is
  outermost and every layer is given the same \<open>info\<close>.
\<close>

fun spec_nested ::
  "('c, 'q, 'i, 'r) Interceptor list \<Rightarrow> 'i \<Rightarrow> ('c \<Rightarrow> 'q \<Rightarrow> 'r) \<Rightarrow> ('c \<Rightarrow> 'q \<Rightarrow> 'r)" where
  "spec_nested [] info H = H"
| "spec_nested (I # Is) info H = (\<lambda>ctx req. I ctx req info (spec_nested Is info H))"

section \<open>Observations and test doubles\<close>

text \<open>
  What the rate-limit step of the interceptor does for a credential: whether it lets
  the call pass (always, when no limiter is configured) and the interceptor it leaves.
\<close>

definition limiter_admits :: "'e AuthInterceptor \<Rightarrow> string \<Rightarrow> Time \<Rightarrow> bool" where
  "limiter_admits i tok now =
     (case rateLimiter i of None \<Rightarrow> True | Some tb \<Rightarrow> fst (fst (Allow tb tok now)))"

definition after_limiter :: "'e AuthInterceptor \<Rightarrow> string \<Rightarrow> Time \<Rightarrow> 'e AuthInterceptor" where
  "after_limiter i tok now =
     (case rateLimiter i of
        None \<Rightarrow> i
      | Some tb \<Rightarrow> i\<lparr>rateLimiter := Some (snd (Allow tb tok now))\<rparr>)"

text \<open>The context with the verified identity and the raw credential bound.\<close>

definition withIdentity :: "Context \<Rightarrow> ValidateJWTResponse \<Rightarrow> string \<Rightarrow> Context" where
  "withIdentity ctx userResp tok =
     ctx\<lparr>UserContextKey := Some (newUserInfo userResp), AccessTokenContextKey := Some tok\<rparr>"

text \<open>
  Test doubles that record every call they receive in the outside state: an identity
  service that answers every validation with a fixed outcome, and handlers that
  succeed.
\<close>

datatype call = CalledValidateJWT Context | CalledHandler Context

definition recording_client :: "error + ValidateJWTResponse \<Rightarrow> call list Client" where
  "recording_client outcome =
     \<lparr>userClient_ValidateJWT = (\<lambda>ctx e. (outcome, e @ [CalledValidateJWT ctx]))\<rparr>"

definition recording_handler :: "(string, string, call list) UnaryHandler" where
  "recording_handler = (\<lambda>ctx req e. ((Some req, None), e @ [CalledHandler ctx]))"

definition recording_stream_handler :: "(unit, unit, call list) StreamHandler" where
  "recording_stream_handler = (\<lambda>srv stream e. (None, e @ [CalledHandler (stream_Context stream)]))"

definition alice :: ValidateJWTResponse where
  "alice = \<lparr>UserId = 7, resp_Username = ''alice'', resp_Email = ''alice@example.org'',
            PhotoUrl = [], resp_Role = 1, AppId = 3, resp_Balance = 250\<rparr>"

definition bearer_ctx :: "string list \<Rightarrow> Context" where
  "bearer_ctx vs =
     \<lparr>incomingMD = Some [''authorization'' \<mapsto> vs], outgoingMD = [],
      UserContextKey = None, AccessTokenContextKey = None\<rparr>"

definition no_md_ctx :: Context where
  "no_md_ctx =
     \<lparr>incomingMD = None, outgoingMD = [], UserContextKey = None, AccessTokenContextKey = None\<rparr>"

definition tb_seen :: TokenBucket where
  "tb_seen =
     \<lparr>buckets = [''tok1'' \<mapsto> \<lparr>tokens = 1 / 2, lastUpdate = 0\<rparr>],
      rate = 10, capacity = 20, cleanup = 5 * Minute\<rparr>"

definition test_interceptor ::
  "error + ValidateJWTResponse \<Rightarrow> TokenBucket option \<Rightarrow> call list AuthInterceptor" where
  "test_interceptor outcome rl =
     SetPublicMethods (NewAuthInterceptor (recording_client outcome) rl)
       [''/management.Management/ListPlans'', ''/management.Management/GetPlan'']"

text \<open>
  The invariant of the limiter at clock reading \<open>t\<close>: the configuration is sane, every
  balance is between 0 and the capacity, and no bucket is stamped later than \<open>t\<close>.
\<close>

definition limiter_inv :: "TokenBucket \<Rightarrow> Time \<Rightarrow> bool" where
  "limiter_inv tb t \<longleftrightarrow>
     1 \<le> sint (capacity tb) \<and> 0 \<le> sint (rate tb) \<and>
     (\<forall>k b. buckets tb k = Some b \<longrightarrow>
        0 \<le> tokens b \<and> tokens b \<le> float64 (capacity tb) \<and> lastUpdate b \<le> t)"

definition sample_run :: "(nat \<times> limiter_op) list" where
  "sample_run =
     [(0, OpAllow ''tok1''), (50000000, OpAllow ''tok1''), (0, OpAllow ''b''),
      (7, OpReset ''b''), (1000000000, OpCleanup)]"

definition info_public :: ServerInfo where
  "info_public = \<lparr>FullMethod = ''/management.Management/ListPlans''\<rparr>"

definition info_private :: ServerInfo where
  "info_private = \<lparr>FullMethod = ''/management.Management/CreatePlan''\<rparr>"

definition sample_stream :: "unit ServerStream" where
  "sample_stream = \<lparr>stream_Context = no_md_ctx, stream_rest = ()\<rparr>"

definition bearer_stream :: "string list \<Rightarrow> unit ServerStream" where
  "bearer_stream vs = \<lparr>stream_Context = bearer_ctx vs, stream_rest = ()\<rparr>"



definition big_config :: Config where
  "big_config = \<lparr>Rate = 1, Capacity = 9007199254740994, CleanupInterval = 5 * Minute\<rparr>"

definition max_config :: Config where
  "max_config = \<lparr>Rate = 1, Capacity = 9223372036854775807, CleanupInterval = 5 * Minute\<rparr>"

text \<open>
  A double for \<^verbatim>\<open>grpc.DialContext\<close> that follows the library's documentation and
  records each call. Without transport credentials the dial fails at once. Without
  \<^verbatim>\<open>WithBlock\<close> the dial does not wait: it returns a connection that is still
  connecting, whether or not the target can be reached, and the context's deadline
  plays no part. With \<^verbatim>\<open>WithBlock\<close> it returns once the connection is up, or fails
  when the deadline passes first. \<open>net target\<close> is the time a connection to the
  target takes, \<open>None\<close> when the target cannot be reached.
\<close>

datatype ClientConn = Connecting string | Ready string

datatype dial_call = Dialed "Time option" string "DialOption list"

definition grpc_DialContext ::
  "(string \<Rightarrow> Duration option) \<Rightarrow> Time \<Rightarrow> (ClientConn, dial_call list) Dialer" where
  "grpc_DialContext net now ctx target opts e =
     (let e' = e @ [Dialed ctx target opts]
      in if WithTransportCredentials_insecure \<notin> set opts
         then (Inl (External ''grpc: no transport security set''), e')
         else if WithBlock \<notin> set opts
         then (Inr (Connecting target), e')
         else
           case (net target, ctx) of
             (Some d, Some deadline) \<Rightarrow>
               if now + d \<le> deadline then (Inr (Ready target), e')
               else (Inl (External ''context deadline exceeded''), e')
           | (Some d, None) \<Rightarrow> (Inr (Ready target), e')
           | (None, _) \<Rightarrow> (Inl (External ''context deadline exceeded''), e'))"

definition unreachable_net :: "string \<Rightarrow> Duration option" where
  "unreachable_net target = None"

definition unreachable_config :: sso_Config where
  "unreachable_config =
     \<lparr>Address = ''10.255.255.1:50051'', Timeout = 5 * Second, RetriesCount = 3,
      Insecure = True\<rparr>"

section \<open>Properties of float64 rounding\<close>

lemma round_even_of_int [simp]: "round_even (real_of_int n) = n"
  by (simp add: round_even_def)

lemma round_even_bounds:
  "real_of_int (round_even y) \<le> y + 1 / 2" "y - 1 / 2 \<le> real_of_int (round_even y)"
  unfolding round_even_def Let_def by (auto; linarith)+

lemma round_even_floor_ceiling:
  "\<lfloor>y\<rfloor> \<le> round_even y" "round_even y \<le> \<lfloor>y\<rfloor> + 1"
  unfolding round_even_def Let_def by auto

lemma round_even_mono:
  assumes "x \<le> y"
  shows "round_even x \<le> round_even y"
proof (cases "\<lfloor>x\<rfloor> = \<lfloor>y\<rfloor>")
  case True
  then show ?thesis
    using assms unfolding round_even_def Let_def by auto
next
  case False
  then have "\<lfloor>x\<rfloor> < \<lfloor>y\<rfloor>"
    using assms floor_mono [of x y] by linarith
  then have "round_even x \<le> \<lfloor>y\<rfloor>"
    using round_even_floor_ceiling(2) [of x] by linarith
  then show ?thesis
    using round_even_floor_ceiling(1) [of y] by linarith
qed

lemma round_even_ge_int: "real_of_int k \<le> y \<Longrightarrow> k \<le> round_even y"
  using round_even_mono [of "real_of_int k" y] by simp

lemma round_even_le_int: "y \<le> real_of_int k \<Longrightarrow> round_even y \<le> k"
  using round_even_mono [of y "real_of_int k"] by simp

lemma binade_bounds:
  assumes "0 < x"
  shows "2 powi binade x \<le> x" and "x < 2 powi (binade x + 1)"
proof -
  show "2 powi binade x \<le> x"
  proof (cases "1 \<le> x")
    case True
    then have n: "0 < \<lfloor>x\<rfloor>" by linarith
    have b1: "1 \<le> bitlen \<lfloor>x\<rfloor>"
      using n bitlen_eq_zero_iff [of "\<lfloor>x\<rfloor>"] bitlen_nonneg [of "\<lfloor>x\<rfloor>"] by linarith
    have "(2::int) ^ nat (bitlen \<lfloor>x\<rfloor> - 1) \<le> \<lfloor>x\<rfloor>"
      using bitlen_bounds [OF n] by simp
    then have "real_of_int (2 ^ nat (bitlen \<lfloor>x\<rfloor> - 1)) \<le> real_of_int \<lfloor>x\<rfloor>"
      by (simp only: of_int_le_iff)
    then have "(2::real) ^ nat (bitlen \<lfloor>x\<rfloor> - 1) \<le> x"
      by (simp add: le_floor_iff)
    then show ?thesis
      using True b1 by (simp add: binade_def power_int_nonneg_exp)
  next
    case False
    define k where "k = bitlen (\<lceil>1 / x\<rceil> - 1)"
    have y: "1 < 1 / x" using assms False by simp
    then have n: "0 < \<lceil>1 / x\<rceil> - 1" by linarith
    have "\<lceil>1 / x\<rceil> - 1 < 2 ^ nat k"
      using bitlen_bounds [OF n] by (simp add: k_def)
    then have "\<lceil>1 / x\<rceil> \<le> 2 ^ nat k" by linarith
    then have "real_of_int \<lceil>1 / x\<rceil> \<le> real_of_int (2 ^ nat k)"
      by (simp only: of_int_le_iff)
    then have "real_of_int \<lceil>1 / x\<rceil> \<le> 2 ^ nat k"
      by simp
    then have "1 / x \<le> 2 ^ nat k"
      using le_of_int_ceiling [of "1 / x"] by linarith
    then have "1 / 2 ^ nat k \<le> x"
      using assms by (simp add: field_simps)
    moreover have "0 \<le> k" by (simp add: k_def bitlen_nonneg)
    ultimately show ?thesis
      using False by (simp add: binade_def k_def [symmetric] power_int_minus_divide power_int_nonneg_exp)
  qed
  show "x < 2 powi (binade x + 1)"
  proof (cases "1 \<le> x")
    case True
    then have n: "0 < \<lfloor>x\<rfloor>" by linarith
    have b1: "1 \<le> bitlen \<lfloor>x\<rfloor>"
      using n bitlen_eq_zero_iff [of "\<lfloor>x\<rfloor>"] bitlen_nonneg [of "\<lfloor>x\<rfloor>"] by linarith
    have "\<lfloor>x\<rfloor> < 2 ^ nat (bitlen \<lfloor>x\<rfloor>)"
      using bitlen_bounds [OF n] by simp
    then have "x < real_of_int (2 ^ nat (bitlen \<lfloor>x\<rfloor>))"
      by (simp only: floor_less_iff)
    then show ?thesis
      using True b1 by (simp add: binade_def power_int_nonneg_exp)
  next
    case False
    define k where "k = bitlen (\<lceil>1 / x\<rceil> - 1)"
    have y: "1 < 1 / x" using assms False by simp
    then have n: "0 < \<lceil>1 / x\<rceil> - 1" by linarith
    have k1: "1 \<le> k"
      using n bitlen_eq_zero_iff [of "\<lceil>1 / x\<rceil> - 1"] bitlen_nonneg [of "\<lceil>1 / x\<rceil> - 1"]
      unfolding k_def by linarith
    have "(2::int) ^ nat (k - 1) \<le> \<lceil>1 / x\<rceil> - 1"
      using bitlen_bounds [OF n] by (simp add: k_def)
    then have "real_of_int (2 ^ nat (k - 1)) \<le> real_of_int (\<lceil>1 / x\<rceil> - 1)"
      by (simp only: of_int_le_iff)
    moreover have "real_of_int (\<lceil>1 / x\<rceil> - 1) < 1 / x"
      using ceiling_correct [of "1 / x"] by simp
    ultimately have "2 ^ nat (k - 1) < 1 / x" by simp
    then have "x < 1 / 2 ^ nat (k - 1)"
      using assms by (simp add: field_simps)
    moreover have "(2::real) powi (- k + 1) = 1 / 2 ^ nat (k - 1)"
    proof -
      have "(2::real) powi (- (k - 1)) = 1 / 2 powi (k - 1)"
        by (rule power_int_minus_divide)
      also have "\<dots> = 1 / 2 ^ nat (k - 1)"
        using k1 by (simp add: power_int_nonneg_exp)
      finally show ?thesis by simp
    qed
    ultimately have "x < 2 powi (- k + 1)" by simp
    then show ?thesis
      using False by (simp only: binade_def k_def [symmetric] if_False)
  qed
qed

lemma pow2_less_D: "(2::real) powi a < 2 powi b \<Longrightarrow> a < b"
  using power_int_increasing [of b a "2::real"] by (cases "a < b") auto

lemma pow2_le_D: "(2::real) powi a \<le> 2 powi b \<Longrightarrow> a \<le> b"
  using power_int_strict_increasing [of b a "2::real"] by (cases "a \<le> b") auto

lemma binade_unique:
  assumes "2 powi E \<le> x" and "x < 2 powi (E + 1)"
  shows "binade x = E"
proof -
  have pos: "0 < x"
    using assms(1) zero_less_power_int [of "2::real" E] by linarith
  note b = binade_bounds [OF pos]
  have "(2::real) powi E < 2 powi (binade x + 1)"
    using assms(1) b(2) by linarith
  then have "E < binade x + 1"
    by (rule pow2_less_D)
  moreover have "(2::real) powi binade x < 2 powi (E + 1)"
    using assms(2) b(1) by linarith
  then have "binade x < E + 1"
    by (rule pow2_less_D)
  ultimately show ?thesis by linarith
qed

lemma binade_mono:
  assumes "0 < x" and "x \<le> y"
  shows "binade x \<le> binade y"
proof -
  have "(2::real) powi binade x < 2 powi (binade y + 1)"
    using binade_bounds(1) [OF assms(1)] binade_bounds(2) [of y] assms by linarith
  then have "binade x < binade y + 1"
    by (rule pow2_less_D)
  then show ?thesis by simp
qed



lemma ulp_exp_ge: "- 1074 \<le> ulp_exp x" and ulp_exp_ge_binade: "binade x - 52 \<le> ulp_exp x"
  by (simp_all add: ulp_exp_def)

lemma ulp_exp_mono: "0 < x \<Longrightarrow> x \<le> y \<Longrightarrow> ulp_exp x \<le> ulp_exp y"
  using binade_mono [of x y] by (simp add: ulp_exp_def)

lemma pow2_split:
  assumes "b \<le> a"
  shows "(2::real) powi a = real_of_int (2 ^ nat (a - b)) * 2 powi b"
proof -
  have "(2::real) powi a = 2 powi ((a - b) + b)" by simp
  also have "\<dots> = 2 powi (a - b) * 2 powi b"
    by (rule power_int_add) simp
  also have "(2::real) powi (a - b) = 2 ^ nat (a - b)"
    using assms by (simp add: power_int_nonneg_exp)
  finally show ?thesis by simp
qed

lemma round_pos_le_multiple:
  assumes "x \<le> real_of_int K * 2 powi ulp_exp x"
  shows "round_pos x \<le> real_of_int K * 2 powi ulp_exp x"
proof -
  define p :: real where "p = 2 powi ulp_exp x"
  have p: "0 < p" by (simp add: p_def)
  have "x / p \<le> real_of_int K"
    using assms p by (simp add: p_def [symmetric] field_simps)
  then have "round_even (x / p) \<le> K"
    by (rule round_even_le_int)
  then have "real_of_int (round_even (x / p)) \<le> real_of_int K"
    by (simp only: of_int_le_iff)
  then have "real_of_int (round_even (x / p)) * p \<le> real_of_int K * p"
    using p by (simp add: mult_right_mono)
  then show ?thesis
    by (simp add: round_pos_def Let_def p_def)
qed

lemma round_pos_ge_multiple:
  assumes "real_of_int K * 2 powi ulp_exp x \<le> x"
  shows "real_of_int K * 2 powi ulp_exp x \<le> round_pos x"
proof -
  define p :: real where "p = 2 powi ulp_exp x"
  have p: "0 < p" by (simp add: p_def)
  have "real_of_int K \<le> x / p"
    using assms p by (simp add: p_def [symmetric] field_simps)
  then have "K \<le> round_even (x / p)"
    by (rule round_even_ge_int)
  then have "real_of_int K \<le> real_of_int (round_even (x / p))"
    by (simp only: of_int_le_iff)
  then have "real_of_int K * p \<le> real_of_int (round_even (x / p)) * p"
    using p by (simp add: mult_right_mono)
  then show ?thesis
    by (simp add: round_pos_def Let_def p_def)
qed

lemma round_pos_le_pow2:
  assumes "x \<le> 2 powi E" and "ulp_exp x \<le> E"
  shows "round_pos x \<le> 2 powi E"
  using round_pos_le_multiple [of x "2 ^ nat (E - ulp_exp x)"] assms(1)
  by (simp only: pow2_split [OF assms(2)])

lemma round_pos_ge_pow2:
  assumes "2 powi E \<le> x" and "ulp_exp x \<le> E"
  shows "2 powi E \<le> round_pos x"
  using round_pos_ge_multiple [of "2 ^ nat (E - ulp_exp x)" x] assms(1)
  by (simp only: pow2_split [OF assms(2)])

lemma round_pos_nonneg:
  assumes "0 \<le> x"
  shows "0 \<le> round_pos x"
  using round_pos_ge_multiple [of 0 x] assms by simp

lemma round_pos_mono:
  assumes "0 < x" and "x \<le> y"
  shows "round_pos x \<le> round_pos y"
proof (cases "ulp_exp x = ulp_exp y")
  case True
  define p :: real where "p = 2 powi ulp_exp y"
  have p: "0 < p" by (simp add: p_def)
  have "x / p \<le> y / p"
    using assms(2) p by (simp add: divide_right_mono)
  then have "round_even (x / p) \<le> round_even (y / p)"
    by (rule round_even_mono)
  then have "real_of_int (round_even (x / p)) \<le> real_of_int (round_even (y / p))"
    by (simp only: of_int_le_iff)
  then have "real_of_int (round_even (x / p)) * p \<le> real_of_int (round_even (y / p)) * p"
    using p by (simp add: mult_right_mono)
  then show ?thesis
    by (simp add: round_pos_def Let_def True p_def)
next
  case False
  have ypos: "0 < y" using assms by linarith
  have lt: "ulp_exp x < ulp_exp y"
    using False ulp_exp_mono [OF assms] by linarith
  then have ey: "ulp_exp y = binade y - 52"
    using ulp_exp_ge [of x] by (simp add: ulp_exp_def max_def split: if_splits)
  have bx: "binade x + 1 \<le> binade y"
    using lt ey ulp_exp_ge_binade [of x] by linarith
  have "x < 2 powi (binade x + 1)"
    by (rule binade_bounds(2) [OF assms(1)])
  also have "\<dots> \<le> 2 powi binade y"
    using bx by (intro power_int_increasing) simp_all
  finally have "x \<le> 2 powi binade y" by simp
  moreover have "ulp_exp x \<le> binade y"
    using lt ey by linarith
  ultimately have "round_pos x \<le> 2 powi binade y"
    by (rule round_pos_le_pow2)
  also have "\<dots> \<le> round_pos y"
    using binade_bounds(1) [OF ypos] ey by (intro round_pos_ge_pow2) simp_all
  finally show ?thesis .
qed

lemma round64_neg: "round64 (- x) = - round64 x"
  by (simp add: round64_def)

lemma round64_nonneg: "0 \<le> x \<Longrightarrow> 0 \<le> round64 x"
  by (simp add: round64_def round_pos_nonneg)

lemma round64_nonpos: "x \<le> 0 \<Longrightarrow> round64 x \<le> 0"
  using round64_nonneg [of "- x"] by (simp add: round64_neg)

lemma round64_mono:
  assumes "x \<le> y"
  shows "round64 x \<le> round64 y"
proof -
  consider "0 < x" | "x \<le> 0" "0 \<le> y" | "y < 0"
    using assms by linarith
  then show ?thesis
  proof cases
    case 1
    then show ?thesis
      using assms round_pos_mono [of x y] by (simp add: round64_def)
  next
    case 2
    then show ?thesis
      using round64_nonpos [of x] round64_nonneg [of y] by linarith
  next
    case 3
    then have "round_pos (- y) \<le> round_pos (- x)"
      using assms by (intro round_pos_mono) simp_all
    then show ?thesis
      using 3 assms by (simp add: round64_def)
  qed
qed

lemma round_pos_fix_lt:
  assumes "0 < M" and "M < 2 ^ 53" and "- 1074 \<le> e"
  shows "round_pos (real_of_int M * 2 powi e) = real_of_int M * 2 powi e"
proof -
  define r where "r = real_of_int M * 2 powi e"
  have pe: "(0::real) < 2 powi e" by simp
  have rpos: "0 < r"
    using assms(1) pe by (simp add: r_def)
  have "real_of_int M < real_of_int (2 ^ 53)"
    using assms(2) by (simp only: of_int_less_iff)
  then have "r < 2 ^ 53 * 2 powi e"
    using pe by (simp add: r_def)
  also have "\<dots> = 2 powi (53 + e)"
    by (subst power_int_add) simp_all
  finally have "2 powi binade r < (2::real) powi (53 + e)"
    using binade_bounds(1) [OF rpos] by linarith
  then have "binade r < 53 + e"
    by (rule pow2_less_D)
  then have ue: "ulp_exp r \<le> e"
    using assms(3) by (simp add: ulp_exp_def)
  define u where "u = ulp_exp r"
  define K where "K = M * 2 ^ nat (e - u)"
  have pu: "(0::real) < 2 powi u" by simp
  have "(2::real) powi e = real_of_int (2 ^ nat (e - u)) * 2 powi u"
    using ue unfolding u_def by (rule pow2_split)
  then have "r = real_of_int M * (real_of_int (2 ^ nat (e - u)) * 2 powi u)"
    unfolding r_def by (rule arg_cong)
  then have rK: "r = real_of_int K * 2 powi u"
    by (simp add: K_def)
  then have "r / 2 powi u = real_of_int K"
    using pu by simp
  then have "round_even (r / 2 powi u) = K"
    by (simp only: round_even_of_int)
  then have "round_pos r = real_of_int K * 2 powi u"
    by (simp add: round_pos_def Let_def u_def)
  then show ?thesis
    using rK unfolding r_def by simp
qed

lemma round_pos_fix:
  assumes "0 < M" and "M \<le> 2 ^ 53" and "- 1074 \<le> e"
  shows "round_pos (real_of_int M * 2 powi e) = real_of_int M * 2 powi e"
proof (cases "M = 2 ^ 53")
  case False
  then show ?thesis
    using assms by (intro round_pos_fix_lt) simp_all
next
  case True
  have "real_of_int M * 2 powi e = real_of_int (2 ^ 52) * 2 powi (e + 1)"
    by (simp add: True power_int_add)
  moreover have "round_pos (real_of_int (2 ^ 52) * 2 powi (e + 1)) =
      real_of_int (2 ^ 52) * 2 powi (e + 1)"
    using assms(3) by (intro round_pos_fix_lt) simp_all
  ultimately show ?thesis by simp
qed

lemma round_pos_mantissa:
  assumes "0 < x"
  shows "0 \<le> round_even (x / 2 powi ulp_exp x)" and "round_even (x / 2 powi ulp_exp x) \<le> 2 ^ 53"
proof -
  have pe: "(0::real) < 2 powi ulp_exp x" by simp
  have "0 \<le> x / 2 powi ulp_exp x"
    using assms by simp
  then show "0 \<le> round_even (x / 2 powi ulp_exp x)"
    using round_even_ge_int [of 0] by simp
  have "x < 2 powi (binade x + 1)"
    by (rule binade_bounds(2) [OF assms])
  also have "\<dots> \<le> 2 powi (53 + ulp_exp x)"
    using ulp_exp_ge_binade [of x] by (intro power_int_increasing) simp_all
  also have "\<dots> = 2 ^ 53 * 2 powi ulp_exp x"
    by (subst power_int_add) simp_all
  finally have "x / 2 powi ulp_exp x \<le> real_of_int (2 ^ 53)"
    using pe by (simp add: field_simps)
  then show "round_even (x / 2 powi ulp_exp x) \<le> 2 ^ 53"
    by (rule round_even_le_int)
qed

lemma round_pos_idem:
  assumes "0 < x"
  shows "round64 (round_pos x) = round_pos x"
proof -
  define M where "M = round_even (x / 2 powi ulp_exp x)"
  have r: "round_pos x = real_of_int M * 2 powi ulp_exp x"
    by (simp add: round_pos_def Let_def M_def)
  show ?thesis
  proof (cases "M = 0")
    case True
    then show ?thesis by (simp add: r round64_def)
  next
    case False
    then have M: "0 < M" "M \<le> 2 ^ 53"
      using round_pos_mantissa [OF assms] by (simp_all add: M_def)
    then have "0 < real_of_int M * 2 powi ulp_exp x"
      by simp
    moreover have "round_pos (real_of_int M * 2 powi ulp_exp x) = real_of_int M * 2 powi ulp_exp x"
      using M ulp_exp_ge [of x] by (intro round_pos_fix)
    ultimately show ?thesis
      by (simp add: r round64_def)
  qed
qed

lemma round64_idem: "round64 (round64 x) = round64 x"
proof -
  consider "x = 0" | "0 < x" | "x < 0" by linarith
  then show ?thesis
  proof cases
    case 1
    then show ?thesis by (simp add: round64_def)
  next
    case 2
    then show ?thesis
      using round_pos_idem [of x] by (simp add: round64_def)
  next
    case 3
    then have "round64 (round_pos (- x)) = round_pos (- x)"
      by (intro round_pos_idem) simp
    then show ?thesis
      using 3 round64_neg [of "round_pos (- x)"] by (simp add: round64_def)
  qed
qed

lemma round64_of_int_exact:
  assumes "\<bar>n\<bar> \<le> 2 ^ 53"
  shows "round64 (real_of_int n) = real_of_int n"
proof -
  have pos: "round_pos (real_of_int m) = real_of_int m" if "0 < m" "m \<le> 2 ^ 53" for m
    using round_pos_fix [of m 0] that by simp
  consider "n = 0" | "0 < n" | "n < 0" by linarith
  then show ?thesis
  proof cases
    case 1
    then show ?thesis by (simp add: round64_def)
  next
    case 2
    then show ?thesis
      using pos [of n] assms by (simp add: round64_def)
  next
    case 3
    then show ?thesis
      using pos [of "- n"] assms by (simp add: round64_def)
  qed
qed

lemma round64_le_fixed: "x \<le> round64 c \<Longrightarrow> round64 x \<le> round64 c"
  using round64_mono [of x "round64 c"] by (simp add: round64_idem)

lemma round64_ge_fixed: "round64 c \<le> x \<Longrightarrow> round64 c \<le> round64 x"
  using round64_mono [of "round64 c" x] by (simp add: round64_idem)

section \<open>Properties of the token bucket\<close>

lemma sint_pred:
  fixes c :: go_int
  assumes "1 \<le> sint c"
  shows "sint (c - 1) = sint c - 1"
proof -
  have ub: "sint c < 2 ^ 63"
    using sint_lt [of c] by simp
  have "sint (c - 1) = signed_take_bit 63 (sint c - 1)"
    by (simp add: sint_word_ariths)
  also have "\<dots> = sint c - 1"
    using assms ub by (intro signed_take_bit_int_eq_self) auto
  finally show ?thesis .
qed



lemma float64_mono:
  assumes "sint a \<le> sint b"
  shows "float64 a \<le> float64 b"
proof -
  have "real_of_int (sint a) \<le> real_of_int (sint b)"
    using assms by (simp only: of_int_le_iff)
  then show ?thesis
    unfolding float64_def float64_of_int_def by (rule round64_mono)
qed

lemma float64_fixed: "round64 (float64 c) = float64 c"
  unfolding float64_def float64_of_int_def by (rule round64_idem)

lemma float64_exact:
  assumes "\<bar>sint c\<bar> \<le> 2 ^ 53"
  shows "float64 c = real_of_int (sint c)"
  unfolding float64_def float64_of_int_def using assms by (rule round64_of_int_exact)

lemma float64_ge_0:
  assumes "0 \<le> sint c"
  shows "0 \<le> float64 c"
proof -
  have "real_of_int 0 \<le> real_of_int (sint c)"
    using assms by (simp only: of_int_le_iff)
  then show ?thesis
    unfolding float64_def float64_of_int_def by (intro round64_nonneg) simp
qed

lemma float64_ge_1:
  assumes "1 \<le> sint c"
  shows "1 \<le> float64 c"
proof -
  have "real_of_int 1 \<le> real_of_int (sint c)"
    using assms by (simp only: of_int_le_iff)
  then have "round64 (real_of_int 1) \<le> round64 (real_of_int (sint c))"
    by (rule round64_mono)
  moreover have "round64 (real_of_int 1) = real_of_int 1"
    by (rule round64_of_int_exact) simp
  ultimately show ?thesis
    unfolding float64_def float64_of_int_def by (simp only: of_int_1)
qed

lemma float64_pred_exact:
  assumes "1 \<le> sint c" and "sint c \<le> 2 ^ 53 + 1"
  shows "float64 (c - 1) = real_of_int (sint c) - 1"
proof -
  have s: "sint (c - 1) = sint c - 1"
    by (rule sint_pred [OF assms(1)])
  have "\<bar>sint (c - 1)\<bar> \<le> 2 ^ 53"
    using assms by (simp add: s)
  then have "float64 (c - 1) = real_of_int (sint (c - 1))"
    by (rule float64_exact)
  then show ?thesis
    by (simp add: s)
qed

lemma float64_pred_range:
  assumes "1 \<le> sint c"
  shows "0 \<le> float64 (c - 1)" and "float64 (c - 1) \<le> float64 c"
proof -
  have s: "sint (c - 1) = sint c - 1"
    by (rule sint_pred [OF assms])
  show "0 \<le> float64 (c - 1)"
    using assms by (intro float64_ge_0) (simp add: s)
  show "float64 (c - 1) \<le> float64 c"
    by (intro float64_mono) (simp add: s)
qed

lemma go_quo_rem_nonneg:
  assumes "0 \<le> d"
  shows "0 \<le> go_quo d Second" and "0 \<le> go_rem d Second"
proof -
  have q: "go_quo d Second = d div Second"
    using assms by (cases "d = 0") (simp_all add: go_quo_def Second_def)
  show "0 \<le> go_quo d Second"
    unfolding q using assms by (simp add: Second_def pos_imp_zdiv_nonneg_iff)
  have "go_rem d Second = d mod Second"
    unfolding go_rem_def q by (simp add: minus_mult_div_eq_mod)
  then show "0 \<le> go_rem d Second"
    by (simp add: Second_def)
qed

lemma Seconds_nonneg:
  assumes "u \<le> t"
  shows "0 \<le> Seconds (time_Sub t u)"
proof -
  have d: "0 \<le> time_Sub t u"
    using assms by (simp add: time_Sub_def Let_def maxDuration_def minDuration_def)
  have "0 \<le> float64_of_int (go_quo (time_Sub t u) Second)"
    unfolding float64_of_int_def using go_quo_rem_nonneg(1) [OF d] by (intro round64_nonneg) simp
  moreover have "0 \<le> float64_of_int (go_rem (time_Sub t u) Second)"
    unfolding float64_of_int_def using go_quo_rem_nonneg(2) [OF d] by (intro round64_nonneg) simp
  then have "0 \<le> fdiv (float64_of_int (go_rem (time_Sub t u) Second)) 1000000000"
    unfolding fdiv_def by (intro round64_nonneg) simp
  ultimately show ?thesis
    unfolding Seconds_def Let_def fadd_def by (intro round64_nonneg) simp
qed

lemma bucket_update_all:
  "b\<lparr>tokens := x, lastUpdate := t\<rparr> = \<lparr>tokens = x, lastUpdate = t\<rparr>"
  by (cases b) simp

lemma Allow_first_sight:
  assumes "buckets tb k = None"
  shows "Allow tb k now =
           ((True, capacity tb - 1),
            tb\<lparr>buckets := (buckets tb)(k \<mapsto>
                  \<lparr>tokens = float64 (capacity tb - 1), lastUpdate = now\<rparr>)\<rparr>)"
  using assms by (simp add: Allow_def)

lemma Allow_seen_admit:
  assumes "buckets tb k = Some b"
    and "bal = min (fadd (tokens b) (fmul (Seconds (time_Sub now (lastUpdate b)))
                                         (float64 (rate tb))))
                   (float64 (capacity tb))"
    and "1 \<le> bal"
  shows "Allow tb k now =
           ((True, int_of_float64 (fsub bal 1)),
            tb\<lparr>buckets := (buckets tb)(k \<mapsto> \<lparr>tokens = fsub bal 1, lastUpdate = now\<rparr>)\<rparr>)"
  using assms by (auto simp add: Allow_def Let_def min_def bucket_update_all)

lemma Allow_seen_reject:
  assumes "buckets tb k = Some b"
    and "bal = min (fadd (tokens b) (fmul (Seconds (time_Sub now (lastUpdate b)))
                                         (float64 (rate tb))))
                   (float64 (capacity tb))"
    and "\<not> 1 \<le> bal"
  shows "Allow tb k now =
           ((False, 0),
            tb\<lparr>buckets := (buckets tb)(k \<mapsto> \<lparr>tokens = bal, lastUpdate = now\<rparr>)\<rparr>)"
  using assms by (auto simp add: Allow_def Let_def min_def bucket_update_all)

lemma fsub_one_range:
  assumes "1 \<le> bal" and "bal \<le> float64 c"
  shows "0 \<le> fsub bal 1" and "fsub bal 1 \<le> float64 c"
proof -
  show "0 \<le> fsub bal 1"
    unfolding fsub_def using assms(1) by (intro round64_nonneg) simp
  have "bal - 1 \<le> float64 c"
    using assms(2) by simp
  then have "round64 (bal - 1) \<le> round64 (float64 c)"
    by (rule round64_mono)
  then show "fsub bal 1 \<le> float64 c"
    by (simp only: fsub_def float64_fixed)
qed


lemma limiter_inv_mono: "limiter_inv tb t \<Longrightarrow> t \<le> t' \<Longrightarrow> limiter_inv tb t'"
  unfolding limiter_inv_def by fastforce

lemma limiter_inv_New:
  assumes "1 \<le> sint (capacity (New cfg))"
  shows "limiter_inv (New cfg) t"
  using assms unfolding limiter_inv_def New_def Let_def by auto

lemma Allow_fields [simp]:
  "capacity (snd (Allow tb k now)) = capacity tb"
  "rate (snd (Allow tb k now)) = rate tb"
  "cleanup (snd (Allow tb k now)) = cleanup tb"
  by (simp_all add: Allow_def Let_def split: option.splits)

lemma Allow_other_bucket: "k' \<noteq> k \<Longrightarrow> buckets (snd (Allow tb k now)) k' = buckets tb k'"
  by (simp add: Allow_def Let_def split: option.splits)

lemma Allow_this_bucket_range:
  assumes inv: "limiter_inv tb t" and le: "t \<le> now"
    and res: "buckets (snd (Allow tb k now)) k = Some b'"
  shows "0 \<le> tokens b' \<and> tokens b' \<le> float64 (capacity tb) \<and> lastUpdate b' \<le> now"
proof (cases "buckets tb k")
  case None
  have c1: "1 \<le> sint (capacity tb)"
    using inv by (simp add: limiter_inv_def)
  from None res have "b' = \<lparr>tokens = float64 (capacity tb - 1), lastUpdate = now\<rparr>"
    by (simp add: Allow_first_sight)
  then show ?thesis
    using float64_pred_range [OF c1] by simp
next
  case (Some b)
  define bal where
    "bal = min (fadd (tokens b) (fmul (Seconds (time_Sub now (lastUpdate b)))
                                     (float64 (rate tb))))
               (float64 (capacity tb))"
  have range_b: "0 \<le> tokens b" "lastUpdate b \<le> t"
    using inv Some by (auto simp: limiter_inv_def)
  have c1: "1 \<le> float64 (capacity tb)" and r0: "0 \<le> float64 (rate tb)"
    using inv by (simp_all add: limiter_inv_def float64_ge_1 float64_ge_0)
  have "0 \<le> Seconds (time_Sub now (lastUpdate b))"
    using range_b(2) le by (intro Seconds_nonneg) linarith
  then have "0 \<le> Seconds (time_Sub now (lastUpdate b)) * float64 (rate tb)"
    using r0 by simp
  then have "0 \<le> fmul (Seconds (time_Sub now (lastUpdate b))) (float64 (rate tb))"
    unfolding fmul_def by (rule round64_nonneg)
  then have "0 \<le> fadd (tokens b) (fmul (Seconds (time_Sub now (lastUpdate b)))
                                         (float64 (rate tb)))"
    unfolding fadd_def using range_b(1) by (intro round64_nonneg) simp
  then have bal0: "0 \<le> bal"
    using c1 by (simp add: bal_def)
  have balc: "bal \<le> float64 (capacity tb)"
    by (simp add: bal_def)
  show ?thesis
  proof (cases "1 \<le> bal")
    case True
    from res have "b' = \<lparr>tokens = fsub bal 1, lastUpdate = now\<rparr>"
      by (simp add: Allow_seen_admit [OF Some bal_def True])
    then show ?thesis
      using fsub_one_range [OF True balc] by simp
  next
    case False
    from res have "b' = \<lparr>tokens = bal, lastUpdate = now\<rparr>"
      by (simp add: Allow_seen_reject [OF Some bal_def False])
    then show ?thesis
      using bal0 balc by simp
  qed
qed

lemma limiter_inv_Allow:
  assumes inv: "limiter_inv tb t" and le: "t \<le> now"
  shows "limiter_inv (snd (Allow tb k now)) now"
  unfolding limiter_inv_def
proof (intro conjI allI impI)
  show "1 \<le> sint (capacity (snd (Allow tb k now)))" "0 \<le> sint (rate (snd (Allow tb k now)))"
    using inv by (simp_all add: limiter_inv_def)
next
  fix k' b'
  assume res: "buckets (snd (Allow tb k now)) k' = Some b'"
  have "0 \<le> tokens b' \<and> tokens b' \<le> float64 (capacity tb) \<and> lastUpdate b' \<le> now"
  proof (cases "k' = k")
    case True
    with res show ?thesis
      using Allow_this_bucket_range [OF inv le] by simp
  next
    case False
    with res have "buckets tb k' = Some b'"
      by (simp add: Allow_other_bucket)
    with inv le show ?thesis
      by (fastforce simp: limiter_inv_def)
  qed
  then show "0 \<le> tokens b'" "tokens b' \<le> float64 (capacity (snd (Allow tb k now)))"
    "lastUpdate b' \<le> now"
    by simp_all
qed

lemma limiter_inv_Reset: "limiter_inv tb t \<Longrightarrow> limiter_inv (Reset tb k) t"
  unfolding limiter_inv_def Reset_def by (auto split: if_splits)

lemma limiter_inv_cleanup: "limiter_inv tb t \<Longrightarrow> limiter_inv (cleanup_old_buckets tb now) t"
  unfolding limiter_inv_def cleanup_old_buckets_def Let_def
  by (auto split: option.splits if_splits)

lemma limiter_inv_step:
  assumes "limiter_inv tb t" and "t \<le> now"
  shows "limiter_inv (limiter_step tb now ev) now"
proof (cases ev)
  case (OpAllow k)
  then show ?thesis using limiter_inv_Allow [OF assms] by simp
next
  case (OpReset k)
  then show ?thesis using limiter_inv_mono [OF limiter_inv_Reset [OF assms(1)] assms(2)] by simp
next
  case OpCleanup
  then show ?thesis using limiter_inv_mono [OF limiter_inv_cleanup [OF assms(1)] assms(2)] by simp
qed

lemma limiter_inv_run:
  "limiter_inv tb t \<Longrightarrow> limiter_inv (fst (limiter_run tb t evs)) (snd (limiter_run tb t evs))"
proof (induction evs arbitrary: tb t)
  case Nil
  then show ?case by simp
next
  case (Cons a evs)
  obtain d ev where a: "a = (d, ev)" by (cases a)
  have "limiter_inv (limiter_step tb (t + int d) ev) (t + int d)"
    using limiter_inv_step [OF Cons.prems, of "t + int d" ev] by simp
  then show ?case
    using Cons.IH a by simp
qed

lemma limiter_step_capacity: "capacity (limiter_step tb now ev) = capacity tb"
  by (cases ev) (simp_all add: Reset_def cleanup_old_buckets_def Let_def)

lemma limiter_run_capacity: "capacity (fst (limiter_run tb t evs)) = capacity tb"
proof (induction evs arbitrary: tb t)
  case Nil
  then show ?case by simp
next
  case (Cons a evs)
  obtain d ev where a: "a = (d, ev)" by (cases a)
  show ?case using Cons.IH a by (simp add: limiter_step_capacity)
qed

text \<open>
  Claim C6, as amended. Start from a limiter built by \<^verbatim>\<open>New\<close> whose capacity is at
  least 1 and run any sequence of \<^verbatim>\<open>Allow\<close>, \<^verbatim>\<open>Reset\<close> and sweep operations, each at a
  clock reading not earlier than the previous one. Then every bucket stored in the map
  holds a balance between 0 and \<open>float64(capacity)\<close>, the capacity rounded to the
  nearest \<^verbatim>\<open>float64\<close>; for a capacity of at most \<open>2^53\<close> that is the capacity itself.
\<close>

theorem tokens_within_capacity:
  assumes "1 \<le> sint (capacity (New cfg))"
    and "buckets (fst (limiter_run (New cfg) t0 evs)) k = Some b"
  shows "0 \<le> tokens b \<and> tokens b \<le> float64 (capacity (New cfg))
       \<and> (sint (capacity (New cfg)) \<le> 2 ^ 53 \<longrightarrow>
            tokens b \<le> real_of_int (sint (capacity (New cfg))))"
proof -
  have "limiter_inv (fst (limiter_run (New cfg) t0 evs)) (snd (limiter_run (New cfg) t0 evs))"
    using assms(1) by (intro limiter_inv_run limiter_inv_New)
  then have range: "0 \<le> tokens b \<and> tokens b \<le> float64 (capacity (New cfg))"
    using assms(2) by (auto simp: limiter_inv_def limiter_run_capacity)
  have "float64 (capacity (New cfg)) = real_of_int (sint (capacity (New cfg)))"
    if "sint (capacity (New cfg)) \<le> 2 ^ 53"
    using that assms(1) by (intro float64_exact) simp
  then show ?thesis
    using range by auto
qed

text \<open>
  Claim C7, as amended. Whatever the limiter held before, \<^verbatim>\<open>Reset\<close> of a credential
  followed at once by \<^verbatim>\<open>Allow\<close> of it behaves as first sight: the call is admitted,
  the reported remaining count is \<open>capacity - 1\<close>, the credential's bucket holds
  \<open>float64(capacity - 1)\<close> tokens stamped \<open>now\<close> and the other buckets are untouched;
  the result and the bucket are those of \<^verbatim>\<open>Allow\<close> on any limiter of the same capacity
  that has never seen the credential. For a capacity of at least 1 the machine
  subtraction does not wrap, and for a capacity between 1 and \<open>2^53 + 1\<close> the bucket
  holds exactly \<open>capacity - 1\<close> tokens.
\<close>

theorem Reset_then_Allow_is_first_sight:
  "fst (Allow (Reset tb k) k now) = (True, capacity tb - 1)
   \<and> buckets (snd (Allow (Reset tb k) k now)) =
       (buckets tb)(k \<mapsto> \<lparr>tokens = float64 (capacity tb - 1), lastUpdate = now\<rparr>)
   \<and> (\<forall>tb'. buckets tb' k = None \<and> capacity tb' = capacity tb \<longrightarrow>
         fst (Allow (Reset tb k) k now) = fst (Allow tb' k now)
       \<and> buckets (snd (Allow (Reset tb k) k now)) k = buckets (snd (Allow tb' k now)) k)
   \<and> (1 \<le> sint (capacity tb) \<longrightarrow>
         sint (snd (fst (Allow (Reset tb k) k now))) = sint (capacity tb) - 1)
   \<and> (1 \<le> sint (capacity tb) \<and> sint (capacity tb) \<le> 2 ^ 53 + 1 \<longrightarrow>
         float64 (capacity tb - 1) = real_of_int (sint (capacity tb)) - 1)"
proof -
  have none: "buckets (Reset tb k) k = None" and cap: "capacity (Reset tb k) = capacity tb"
    and bk: "(buckets (Reset tb k))(k \<mapsto> v) = (buckets tb)(k \<mapsto> v)" for v
    by (simp_all add: Reset_def)
  have first: "Allow (Reset tb k) k now =
      ((True, capacity tb - 1),
       (Reset tb k)\<lparr>buckets := (buckets tb)(k \<mapsto>
             \<lparr>tokens = float64 (capacity tb - 1), lastUpdate = now\<rparr>)\<rparr>)"
    using Allow_first_sight [OF none, of now] by (simp add: cap bk)
  have other: "fst (Allow tb' k now) = (True, capacity tb - 1)
      \<and> buckets (snd (Allow tb' k now)) k =
          Some \<lparr>tokens = float64 (capacity tb - 1), lastUpdate = now\<rparr>"
    if "buckets tb' k = None \<and> capacity tb' = capacity tb" for tb'
    using that Allow_first_sight [of tb' k now] by simp
  have exact: "float64 (capacity tb - 1) = real_of_int (sint (capacity tb)) - 1"
    if "1 \<le> sint (capacity tb) \<and> sint (capacity tb) \<le> 2 ^ 53 + 1"
    using that by (intro float64_pred_exact) simp_all
  show ?thesis
    using first other exact by (simp add: sint_pred)
qed

lemmas eval_float = round64_def round_pos_def ulp_exp_def binade_def round_even_def Let_def
  compute_bitlen power_int_minus_divide fadd_def fsub_def fmul_def fdiv_def
  float64_of_int_def float64_def

lemmas eval_limiter = New_def DefaultConfig_def Allow_def Reset_def cleanup_old_buckets_def
  Seconds_def go_quo_def go_rem_def time_Sub_def maxDuration_def minDuration_def Second_def
  Minute_def int_of_float64_def trunc_toward_zero_def





theorem tokens_within_capacity_counterexample:
  "1 \<le> sint (capacity (New max_config))
   \<and> buckets (fst (limiter_run (New max_config) 0 [(0, OpAllow ''tok1'')])) ''tok1'' =
       Some \<lparr>tokens = 9223372036854775808, lastUpdate = 0\<rparr>
   \<and> \<not> (9223372036854775808 \<le> real_of_int (sint (capacity (New max_config))))"
  by (simp add: max_config_def eval_limiter eval_float)

theorem Reset_then_Allow_is_first_sight_counterexample:
  "fst (Allow (Reset (New big_config) ''tok1'') ''tok1'' 0) = (True, 9007199254740993)
   \<and> buckets (snd (Allow (Reset (New big_config) ''tok1'') ''tok1'' 0)) ''tok1'' =
       Some \<lparr>tokens = 9007199254740992, lastUpdate = 0\<rparr>
   \<and> real_of_int (sint (capacity (New big_config)) - 1) = 9007199254740993"
  by (simp add: big_config_def eval_limiter eval_float)

theorem tokens_within_capacity_witness:
  "1 \<le> sint (capacity (New DefaultConfig))
   \<and> buckets (fst (limiter_run (New DefaultConfig) 0 sample_run)) ''tok1'' =
       Some \<lparr>tokens = 37 / 2, lastUpdate = 50000000\<rparr>
   \<and> (0::real) \<le> 37 / 2 \<and> (37 / 2 :: real) \<le> float64 (capacity (New DefaultConfig))
   \<and> (37 / 2 :: real) \<le> real_of_int (sint (capacity (New DefaultConfig)))"
proof -
  have h1: "1 \<le> sint (capacity (New DefaultConfig))"
    by (simp add: New_def DefaultConfig_def)
  have h2: "buckets (fst (limiter_run (New DefaultConfig) 0 sample_run)) ''tok1'' =
       Some \<lparr>tokens = 37 / 2, lastUpdate = 50000000\<rparr>"
    by (simp add: sample_run_def eval_limiter eval_float)
  have h3: "sint (capacity (New DefaultConfig)) \<le> 2 ^ 53"
    by (simp add: New_def DefaultConfig_def)
  show ?thesis
    using tokens_within_capacity [OF h1 h2] h1 h2 h3 by simp
qed

theorem Reset_then_Allow_is_first_sight_witness:
  "fst (Allow (Reset tb_seen ''tok1'') ''tok1'' 5) = (True, 19)
   \<and> buckets (snd (Allow (Reset tb_seen ''tok1'') ''tok1'' 5)) ''tok1'' =
       Some \<lparr>tokens = 19, lastUpdate = 5\<rparr>
   \<and> fst (Allow (New DefaultConfig) ''tok1'' 5) = (True, 19)
   \<and> buckets (snd (Allow (New DefaultConfig) ''tok1'' 5)) ''tok1'' =
       Some \<lparr>tokens = 19, lastUpdate = 5\<rparr>"
proof -
  have cap: "capacity (New DefaultConfig) = capacity tb_seen" "capacity tb_seen = 20"
    "buckets (New DefaultConfig) ''tok1'' = None" "1 \<le> sint (capacity tb_seen)"
    "sint (capacity tb_seen) \<le> 2 ^ 53 + 1"
    by (simp_all add: New_def DefaultConfig_def tb_seen_def)
  show ?thesis
    using Reset_then_Allow_is_first_sight [of tb_seen "''tok1''" 5] cap
    by auto
qed

section \<open>Properties of the interceptor\<close>

lemma HasPrefix_append: "HasPrefix (p @ t) p"
  by (simp add: HasPrefix_def)

lemma HasPrefix_iff: "HasPrefix s p \<longleftrightarrow> (\<exists>t. s = p @ t)"
proof
  assume "HasPrefix s p"
  then have "s = p @ drop (length p) s"
    by (metis HasPrefix_def append_take_drop_id)
  then show "\<exists>t. s = p @ t" ..
next
  assume "\<exists>t. s = p @ t"
  then show "HasPrefix s p"
    by (auto simp: HasPrefix_append)
qed

lemma TrimPrefix_append: "TrimPrefix (p @ t) p = t"
  by (simp add: TrimPrefix_def HasPrefix_append)

lemma extract_no_metadata:
  "incomingMD ctx = None \<Longrightarrow>
   extractAccessToken ctx = Inl (StatusError Unauthenticated ''missing metadata'')"
  by (simp add: extractAccessToken_def)

lemma extract_no_header:
  assumes "incomingMD ctx = Some md"
    and "md ''authorization'' = None \<or> md ''authorization'' = Some []"
  shows "extractAccessToken ctx = Inl (StatusError Unauthenticated ''missing authorization header'')"
  using assms by (auto simp add: extractAccessToken_def md_Get_def)

lemma extract_bad_prefix:
  assumes "incomingMD ctx = Some md"
    and "md ''authorization'' = Some (v # vs)"
    and "\<not> (\<exists>t. v = ''Bearer '' @ t)"
  shows "extractAccessToken ctx = Inl (StatusError Unauthenticated invalid_format_message)"
  using assms(1,2) assms(3) [folded HasPrefix_iff]
  by (simp add: extractAccessToken_def md_Get_def)

lemma extract_bearer:
  assumes "incomingMD ctx = Some md"
    and "md ''authorization'' = Some ((''Bearer '' @ tok) # vs)"
  shows "extractAccessToken ctx = Inr tok"
  using assms HasPrefix_append [of "''Bearer ''" tok] TrimPrefix_append [of "''Bearer ''" tok]
  by (simp add: extractAccessToken_def md_Get_def)

lemma Unary_public:
  assumes "map_index (publicMethods i) (FullMethod info)"
  shows "UnaryInterceptor i now ctx req info handler e =
           (fst (handler ctx req e), i, snd (handler ctx req e))"
  using assms by (simp add: UnaryInterceptor_def split_beta)

lemma Stream_public:
  assumes "map_index (publicMethods i) (FullMethod info)"
  shows "StreamInterceptor i now srv stream info handler e =
           (fst (handler srv stream e), i, snd (handler srv stream e))"
  using assms by (simp add: StreamInterceptor_def split_beta)

lemma Unary_extract_fails:
  assumes "\<not> map_index (publicMethods i) (FullMethod info)"
    and "extractAccessToken ctx = Inl err"
  shows "UnaryInterceptor i now ctx req info handler e = ((None, Some err), i, e)"
  using assms by (simp add: UnaryInterceptor_def)

lemma Stream_extract_fails:
  assumes "\<not> map_index (publicMethods i) (FullMethod info)"
    and "extractAccessToken (stream_Context stream) = Inl err"
  shows "StreamInterceptor i now srv stream info handler e = (Some err, i, e)"
  using assms by (simp add: StreamInterceptor_def)

lemma Unary_rate_limited:
  assumes "\<not> map_index (publicMethods i) (FullMethod info)"
    and "extractAccessToken ctx = Inr tok"
    and "\<not> limiter_admits i tok now"
  shows "UnaryInterceptor i now ctx req info handler e =
           ((None, Some (StatusError ResourceExhausted
                           ''rate limit exceeded, please try again later'')),
            after_limiter i tok now, e)"
  using assms
  by (simp add: UnaryInterceptor_def limiter_admits_def after_limiter_def split_beta
      split: option.splits)

lemma Stream_rate_limited:
  assumes "\<not> map_index (publicMethods i) (FullMethod info)"
    and "extractAccessToken (stream_Context stream) = Inr tok"
    and "\<not> limiter_admits i tok now"
  shows "StreamInterceptor i now srv stream info handler e =
           (Some (StatusError ResourceExhausted
                           ''rate limit exceeded, please try again later''),
            after_limiter i tok now, e)"
  using assms
  by (simp add: StreamInterceptor_def limiter_admits_def after_limiter_def split_beta
      split: option.splits)

lemma Unary_validation_fails:
  assumes "\<not> map_index (publicMethods i) (FullMethod info)"
    and "extractAccessToken ctx = Inr tok"
    and "limiter_admits i tok now"
    and "ValidateJWT (ssoClient i) ctx tok e = (Inl err, e1)"
  shows "UnaryInterceptor i now ctx req info handler e =
           ((None, Some (StatusError Unauthenticated ''invalid or expired token'')),
            after_limiter i tok now, e1)"
  using assms
  by (simp add: UnaryInterceptor_def limiter_admits_def after_limiter_def split_beta
      split: option.splits)

lemma Unary_validation_succeeds:
  assumes "\<not> map_index (publicMethods i) (FullMethod info)"
    and "extractAccessToken ctx = Inr tok"
    and "limiter_admits i tok now"
    and "ValidateJWT (ssoClient i) ctx tok e = (Inr userResp, e1)"
  shows "UnaryInterceptor i now ctx req info handler e =
           (fst (handler (withIdentity ctx userResp tok) req e1),
            after_limiter i tok now,
            snd (handler (withIdentity ctx userResp tok) req e1))"
  using assms
  by (simp add: UnaryInterceptor_def limiter_admits_def after_limiter_def split_beta Let_def
      withIdentity_def split: option.splits)

lemma Stream_validation_fails:
  assumes "\<not> map_index (publicMethods i) (FullMethod info)"
    and "extractAccessToken (stream_Context stream) = Inr tok"
    and "limiter_admits i tok now"
    and "ValidateJWT (ssoClient i) (stream_Context stream) tok e = (Inl err, e1)"
  shows "StreamInterceptor i now srv stream info handler e =
           (Some (StatusError Unauthenticated ''invalid or expired token''),
            after_limiter i tok now, e1)"
  using assms
  by (simp add: StreamInterceptor_def limiter_admits_def after_limiter_def split_beta
      split: option.splits)

lemma Stream_validation_succeeds:
  assumes "\<not> map_index (publicMethods i) (FullMethod info)"
    and "extractAccessToken (stream_Context stream) = Inr tok"
    and "limiter_admits i tok now"
    and "ValidateJWT (ssoClient i) (stream_Context stream) tok e = (Inr userResp, e1)"
  shows "StreamInterceptor i now srv stream info handler e =
           (fst (handler srv (stream\<lparr>stream_Context := withIdentity (stream_Context stream) userResp tok\<rparr>) e1),
            after_limiter i tok now,
            snd (handler srv (stream\<lparr>stream_Context := withIdentity (stream_Context stream) userResp tok\<rparr>) e1))"
  using assms
  by (simp add: StreamInterceptor_def limiter_admits_def after_limiter_def split_beta Let_def
      withIdentity_def wrappedServerStream_def split: option.splits)


lemma Unary_with_token:
  assumes "\<not> map_index (publicMethods i) (FullMethod info)"
    and "extractAccessToken ctx = Inr tok"
  shows "UnaryInterceptor i now ctx req info handler e =
           (if \<not> limiter_admits i tok now
            then ((None, Some (StatusError ResourceExhausted
                                 ''rate limit exceeded, please try again later'')),
                  after_limiter i tok now, e)
            else
              case ValidateJWT (ssoClient i) ctx tok e of
                (Inl err, e1) \<Rightarrow>
                  ((None, Some (StatusError Unauthenticated ''invalid or expired token'')),
                   after_limiter i tok now, e1)
              | (Inr userResp, e1) \<Rightarrow>
                  (fst (handler (withIdentity ctx userResp tok) req e1),
                   after_limiter i tok now,
                   snd (handler (withIdentity ctx userResp tok) req e1)))"
proof (cases "limiter_admits i tok now")
  case False
  then show ?thesis
    by (simp add: Unary_rate_limited [OF assms])
next
  case True
  obtain v e1 where v: "ValidateJWT (ssoClient i) ctx tok e = (v, e1)"
    by (cases "ValidateJWT (ssoClient i) ctx tok e")
  show ?thesis
  proof (cases v)
    case (Inl err)
    then show ?thesis
      using True v by (simp add: Unary_validation_fails [OF assms True])
  next
    case (Inr userResp)
    then show ?thesis
      using True v by (simp add: Unary_validation_succeeds [OF assms True])
  qed
qed

lemma map_index_SetPublicMethods:
  "map_index (publicMethods (SetPublicMethods i ms)) m \<longleftrightarrow>
     m \<in> set ms \<or> map_index (publicMethods i) m"
  by (induction ms arbitrary: i) (auto simp: map_index_def)

lemma public_iff_listed:
  "map_index (publicMethods (SetPublicMethods (NewAuthInterceptor c rl) ms)) m \<longleftrightarrow> m \<in> set ms"
  by (simp add: map_index_SetPublicMethods) (simp add: NewAuthInterceptor_def map_index_def)

text \<open>
  Claim C5. A call whose method is in the public-method set is handed straight to the
  next stage with the context and the request it came with, in the unary and in the
  streaming interceptor. The interceptor is returned as it was, so the limiter's bucket
  map is unchanged; the outside state is changed by the handler alone, and neither the
  metadata nor the identity client is consulted.
\<close>

theorem public_method_bypass:
  assumes "map_index (publicMethods i) (FullMethod info)"
  shows "UnaryInterceptor i now ctx req info handler e =
           (fst (handler ctx req e), i, snd (handler ctx req e))
       \<and> StreamInterceptor i now srv stream info shandler e =
           (fst (shandler srv stream e), i, snd (shandler srv stream e))"
  by (simp add: Unary_public [OF assms] Stream_public [OF assms])

lemma Unary_malformed_credential:
  assumes "\<not> map_index (publicMethods i) (FullMethod info)"
  shows "(incomingMD ctx = None \<longrightarrow>
            UnaryInterceptor i now ctx req info handler e =
              ((None, Some (StatusError Unauthenticated ''missing metadata'')), i, e))
       \<and> (\<forall>md. incomingMD ctx = Some md
               \<and> (md ''authorization'' = None \<or> md ''authorization'' = Some []) \<longrightarrow>
            UnaryInterceptor i now ctx req info handler e =
              ((None, Some (StatusError Unauthenticated ''missing authorization header'')), i, e))
       \<and> (\<forall>md v vs. incomingMD ctx = Some md \<and> md ''authorization'' = Some (v # vs)
               \<and> \<not> (\<exists>t. v = ''Bearer '' @ t) \<longrightarrow>
            UnaryInterceptor i now ctx req info handler e =
              ((None, Some (StatusError Unauthenticated invalid_format_message)), i, e))
       \<and> (\<forall>md tok vs. incomingMD ctx = Some md
               \<and> md ''authorization'' = Some ((''Bearer '' @ tok) # vs) \<longrightarrow>
            extractAccessToken ctx = Inr tok)
       \<and> distinct [''missing metadata'', ''missing authorization header'',
                    invalid_format_message]"
proof (intro conjI allI impI)
  assume "incomingMD ctx = None"
  then show "UnaryInterceptor i now ctx req info handler e =
      ((None, Some (StatusError Unauthenticated ''missing metadata'')), i, e)"
    by (simp add: Unary_extract_fails [OF assms extract_no_metadata])
next
  fix md
  assume "incomingMD ctx = Some md
      \<and> (md ''authorization'' = None \<or> md ''authorization'' = Some [])"
  then have "extractAccessToken ctx =
      Inl (StatusError Unauthenticated ''missing authorization header'')"
    by (intro extract_no_header [of ctx md]) simp_all
  then show "UnaryInterceptor i now ctx req info handler e =
      ((None, Some (StatusError Unauthenticated ''missing authorization header'')), i, e)"
    by (rule Unary_extract_fails [OF assms])
next
  fix md v vs
  assume "incomingMD ctx = Some md \<and> md ''authorization'' = Some (v # vs)
      \<and> \<not> (\<exists>t. v = ''Bearer '' @ t)"
  then have "extractAccessToken ctx = Inl (StatusError Unauthenticated invalid_format_message)"
    by (intro extract_bad_prefix [of ctx md v vs]) simp_all
  then show "UnaryInterceptor i now ctx req info handler e =
      ((None, Some (StatusError Unauthenticated invalid_format_message)), i, e)"
    by (rule Unary_extract_fails [OF assms])
next
  fix md tok vs
  assume "incomingMD ctx = Some md \<and> md ''authorization'' = Some ((''Bearer '' @ tok) # vs)"
  then show "extractAccessToken ctx = Inr tok"
    by (intro extract_bearer [of ctx md tok vs]) simp_all
next
  show "distinct [''missing metadata'', ''missing authorization header'',
                  invalid_format_message]"
    by (simp add: invalid_format_message_def)
qed

lemma Stream_malformed_credential:
  assumes "\<not> map_index (publicMethods i) (FullMethod info)"
  shows "(incomingMD (stream_Context stream) = None \<longrightarrow>
            StreamInterceptor i now srv stream info shandler e =
              (Some (StatusError Unauthenticated ''missing metadata''), i, e))
       \<and> (\<forall>md. incomingMD (stream_Context stream) = Some md
               \<and> (md ''authorization'' = None \<or> md ''authorization'' = Some []) \<longrightarrow>
            StreamInterceptor i now srv stream info shandler e =
              (Some (StatusError Unauthenticated ''missing authorization header''), i, e))
       \<and> (\<forall>md v vs. incomingMD (stream_Context stream) = Some md
               \<and> md ''authorization'' = Some (v # vs)
               \<and> \<not> (\<exists>t. v = ''Bearer '' @ t) \<longrightarrow>
            StreamInterceptor i now srv stream info shandler e =
              (Some (StatusError Unauthenticated invalid_format_message), i, e))"
proof (intro conjI allI impI)
  assume "incomingMD (stream_Context stream) = None"
  then show "StreamInterceptor i now srv stream info shandler e =
      (Some (StatusError Unauthenticated ''missing metadata''), i, e)"
    by (simp add: Stream_extract_fails [OF assms extract_no_metadata])
next
  fix md
  assume "incomingMD (stream_Context stream) = Some md
      \<and> (md ''authorization'' = None \<or> md ''authorization'' = Some [])"
  then have "extractAccessToken (stream_Context stream) =
      Inl (StatusError Unauthenticated ''missing authorization header'')"
    by (intro extract_no_header [of "stream_Context stream" md]) simp_all
  then show "StreamInterceptor i now srv stream info shandler e =
      (Some (StatusError Unauthenticated ''missing authorization header''), i, e)"
    by (rule Stream_extract_fails [OF assms])
next
  fix md v vs
  assume "incomingMD (stream_Context stream) = Some md \<and> md ''authorization'' = Some (v # vs)
      \<and> \<not> (\<exists>t. v = ''Bearer '' @ t)"
  then have "extractAccessToken (stream_Context stream) =
      Inl (StatusError Unauthenticated invalid_format_message)"
    by (intro extract_bad_prefix [of "stream_Context stream" md v vs]) simp_all
  then show "StreamInterceptor i now srv stream info shandler e =
      (Some (StatusError Unauthenticated invalid_format_message), i, e)"
    by (rule Stream_extract_fails [OF assms])
qed

text \<open>
  Claim C4. For a non-public call, unary or streaming: missing metadata, a missing (or
  empty) authorization entry, and a first authorization value that does not begin with
  the bytes \<open>''Bearer ''\<close> each give an unauthenticated error, with three different
  messages; the interceptor (and with it the limiter) and the outside state (and with
  it the identity service) are left as they were, and the handler is not run. When
  the first value is \<open>''Bearer ''\<close> followed by \<open>tok\<close>, the extracted credential is
  \<open>tok\<close>. The three messages are pairwise different.
\<close>

theorem malformed_credential_rejected:
  assumes "\<not> map_index (publicMethods i) (FullMethod info)"
  shows "(incomingMD ctx = None \<longrightarrow>
            UnaryInterceptor i now ctx req info handler e =
              ((None, Some (StatusError Unauthenticated ''missing metadata'')), i, e))
       \<and> (\<forall>md. incomingMD ctx = Some md
               \<and> (md ''authorization'' = None \<or> md ''authorization'' = Some []) \<longrightarrow>
            UnaryInterceptor i now ctx req info handler e =
              ((None, Some (StatusError Unauthenticated ''missing authorization header'')), i, e))
       \<and> (\<forall>md v vs. incomingMD ctx = Some md \<and> md ''authorization'' = Some (v # vs)
               \<and> \<not> (\<exists>t. v = ''Bearer '' @ t) \<longrightarrow>
            UnaryInterceptor i now ctx req info handler e =
              ((None, Some (StatusError Unauthenticated invalid_format_message)), i, e))
       \<and> (\<forall>md tok vs. incomingMD ctx = Some md
               \<and> md ''authorization'' = Some ((''Bearer '' @ tok) # vs) \<longrightarrow>
            extractAccessToken ctx = Inr tok)
       \<and> distinct [''missing metadata'', ''missing authorization header'',
                    invalid_format_message]
       \<and> (incomingMD (stream_Context stream) = None \<longrightarrow>
            StreamInterceptor i now srv stream info shandler e =
              (Some (StatusError Unauthenticated ''missing metadata''), i, e))
       \<and> (\<forall>md. incomingMD (stream_Context stream) = Some md
               \<and> (md ''authorization'' = None \<or> md ''authorization'' = Some []) \<longrightarrow>
            StreamInterceptor i now srv stream info shandler e =
              (Some (StatusError Unauthenticated ''missing authorization header''), i, e))
       \<and> (\<forall>md v vs. incomingMD (stream_Context stream) = Some md
               \<and> md ''authorization'' = Some (v # vs)
               \<and> \<not> (\<exists>t. v = ''Bearer '' @ t) \<longrightarrow>
            StreamInterceptor i now srv stream info shandler e =
              (Some (StatusError Unauthenticated invalid_format_message), i, e))"
proof -
  note u = Unary_malformed_credential [OF assms, of ctx now req handler e]
  note st = Stream_malformed_credential [OF assms, of stream now srv shandler e]
  from u st show ?thesis
    by blast
qed

lemma Unary_rate_limit_precedes_validation:
  assumes "\<not> map_index (publicMethods i) (FullMethod info)"
    and "extractAccessToken ctx = Inr tok"
  shows "(\<forall>tb. rateLimiter i = Some tb \<and> \<not> fst (fst (Allow tb tok now)) \<longrightarrow>
            UnaryInterceptor i now ctx req info handler e =
              ((None, Some (StatusError ResourceExhausted
                              ''rate limit exceeded, please try again later'')),
               i\<lparr>rateLimiter := Some (snd (Allow tb tok now))\<rparr>, e))
       \<and> (rateLimiter i = None \<longrightarrow>
            UnaryInterceptor i now ctx req info handler e =
              (case ValidateJWT (ssoClient i) ctx tok e of
                 (Inl err, e1) \<Rightarrow>
                   ((None, Some (StatusError Unauthenticated ''invalid or expired token'')),
                    i, e1)
               | (Inr userResp, e1) \<Rightarrow>
                   (fst (handler (withIdentity ctx userResp tok) req e1), i,
                    snd (handler (withIdentity ctx userResp tok) req e1))))"
proof (intro conjI allI impI)
  fix tb
  assume "rateLimiter i = Some tb \<and> \<not> fst (fst (Allow tb tok now))"
  then have "\<not> limiter_admits i tok now"
    and "after_limiter i tok now = i\<lparr>rateLimiter := Some (snd (Allow tb tok now))\<rparr>"
    by (simp_all add: limiter_admits_def after_limiter_def)
  then show "UnaryInterceptor i now ctx req info handler e =
      ((None, Some (StatusError ResourceExhausted
                      ''rate limit exceeded, please try again later'')),
       i\<lparr>rateLimiter := Some (snd (Allow tb tok now))\<rparr>, e)"
    by (simp add: Unary_rate_limited [OF assms])
next
  assume "rateLimiter i = None"
  then have "limiter_admits i tok now" and "after_limiter i tok now = i"
    by (simp_all add: limiter_admits_def after_limiter_def)
  then show "UnaryInterceptor i now ctx req info handler e =
      (case ValidateJWT (ssoClient i) ctx tok e of
         (Inl err, e1) \<Rightarrow>
           ((None, Some (StatusError Unauthenticated ''invalid or expired token'')),
            i, e1)
       | (Inr userResp, e1) \<Rightarrow>
           (fst (handler (withIdentity ctx userResp tok) req e1), i,
            snd (handler (withIdentity ctx userResp tok) req e1)))"
    by (simp add: Unary_with_token [OF assms] split: prod.splits sum.splits)
qed

lemma Stream_with_token:
  assumes "\<not> map_index (publicMethods i) (FullMethod info)"
    and "extractAccessToken (stream_Context stream) = Inr tok"
  shows "StreamInterceptor i now srv stream info handler e =
           (if \<not> limiter_admits i tok now
            then (Some (StatusError ResourceExhausted
                          ''rate limit exceeded, please try again later''),
                  after_limiter i tok now, e)
            else
              case ValidateJWT (ssoClient i) (stream_Context stream) tok e of
                (Inl err, e1) \<Rightarrow>
                  (Some (StatusError Unauthenticated ''invalid or expired token''),
                   after_limiter i tok now, e1)
              | (Inr userResp, e1) \<Rightarrow>
                  (fst (handler srv
                         (stream\<lparr>stream_Context :=
                                   withIdentity (stream_Context stream) userResp tok\<rparr>) e1),
                   after_limiter i tok now,
                   snd (handler srv
                         (stream\<lparr>stream_Context :=
                                   withIdentity (stream_Context stream) userResp tok\<rparr>) e1)))"
proof (cases "limiter_admits i tok now")
  case False
  then show ?thesis
    by (simp add: Stream_rate_limited [OF assms])
next
  case True
  obtain v e1 where v: "ValidateJWT (ssoClient i) (stream_Context stream) tok e = (v, e1)"
    by (cases "ValidateJWT (ssoClient i) (stream_Context stream) tok e")
  show ?thesis
  proof (cases v)
    case (Inl err)
    then show ?thesis
      using True v by (simp add: Stream_validation_fails [OF assms True])
  next
    case (Inr userResp)
    then show ?thesis
      using True v by (simp add: Stream_validation_succeeds [OF assms True])
  qed
qed

lemma Stream_rate_limit_precedes_validation:
  assumes "\<not> map_index (publicMethods i) (FullMethod info)"
    and "extractAccessToken (stream_Context stream) = Inr tok"
  shows "(\<forall>tb. rateLimiter i = Some tb \<and> \<not> fst (fst (Allow tb tok now)) \<longrightarrow>
            StreamInterceptor i now srv stream info shandler e =
              (Some (StatusError ResourceExhausted
                       ''rate limit exceeded, please try again later''),
               i\<lparr>rateLimiter := Some (snd (Allow tb tok now))\<rparr>, e))
       \<and> (rateLimiter i = None \<longrightarrow>
            StreamInterceptor i now srv stream info shandler e =
              (case ValidateJWT (ssoClient i) (stream_Context stream) tok e of
                 (Inl err, e1) \<Rightarrow>
                   (Some (StatusError Unauthenticated ''invalid or expired token''), i, e1)
               | (Inr userResp, e1) \<Rightarrow>
                   (fst (shandler srv
                          (stream\<lparr>stream_Context :=
                                    withIdentity (stream_Context stream) userResp tok\<rparr>) e1),
                    i,
                    snd (shandler srv
                          (stream\<lparr>stream_Context :=
                                    withIdentity (stream_Context stream) userResp tok\<rparr>) e1))))"
proof (intro conjI allI impI)
  fix tb
  assume "rateLimiter i = Some tb \<and> \<not> fst (fst (Allow tb tok now))"
  then have "\<not> limiter_admits i tok now"
    and "after_limiter i tok now = i\<lparr>rateLimiter := Some (snd (Allow tb tok now))\<rparr>"
    by (simp_all add: limiter_admits_def after_limiter_def)
  then show "StreamInterceptor i now srv stream info shandler e =
      (Some (StatusError ResourceExhausted
               ''rate limit exceeded, please try again later''),
       i\<lparr>rateLimiter := Some (snd (Allow tb tok now))\<rparr>, e)"
    by (simp add: Stream_rate_limited [OF assms])
next
  assume "rateLimiter i = None"
  then have "limiter_admits i tok now" and "after_limiter i tok now = i"
    by (simp_all add: limiter_admits_def after_limiter_def)
  then show "StreamInterceptor i now srv stream info shandler e =
      (case ValidateJWT (ssoClient i) (stream_Context stream) tok e of
         (Inl err, e1) \<Rightarrow>
           (Some (StatusError Unauthenticated ''invalid or expired token''), i, e1)
       | (Inr userResp, e1) \<Rightarrow>
           (fst (shandler srv
                  (stream\<lparr>stream_Context :=
                            withIdentity (stream_Context stream) userResp tok\<rparr>) e1),
            i,
            snd (shandler srv
                  (stream\<lparr>stream_Context :=
                            withIdentity (stream_Context stream) userResp tok\<rparr>) e1)))"
    by (simp add: Stream_with_token [OF assms] split: prod.splits sum.splits)
qed

text \<open>
  Claim C3. For a non-public call, unary or streaming, whose credential was extracted:
  when a limiter is configured and \<^verbatim>\<open>Allow\<close> does not admit, the result is a
  resource-exhausted error, the limiter is the one \<^verbatim>\<open>Allow\<close> left and the outside
  state is untouched, so the identity client was not called and the handler was not
  run. When no limiter is configured the interceptor goes on to identity validation
  and stays as it was.
\<close>

theorem rate_limit_precedes_validation:
  assumes "\<not> map_index (publicMethods i) (FullMethod info)"
    and "extractAccessToken ctx = Inr tok"
  shows "(\<forall>tb. rateLimiter i = Some tb \<and> \<not> fst (fst (Allow tb tok now)) \<longrightarrow>
            UnaryInterceptor i now ctx req info handler e =
              ((None, Some (StatusError ResourceExhausted
                              ''rate limit exceeded, please try again later'')),
               i\<lparr>rateLimiter := Some (snd (Allow tb tok now))\<rparr>, e))
       \<and> (rateLimiter i = None \<longrightarrow>
            UnaryInterceptor i now ctx req info handler e =
              (case ValidateJWT (ssoClient i) ctx tok e of
                 (Inl err, e1) \<Rightarrow>
                   ((None, Some (StatusError Unauthenticated ''invalid or expired token'')),
                    i, e1)
               | (Inr userResp, e1) \<Rightarrow>
                   (fst (handler (withIdentity ctx userResp tok) req e1), i,
                    snd (handler (withIdentity ctx userResp tok) req e1))))
       \<and> (stream_Context stream = ctx \<longrightarrow>
            (\<forall>tb. rateLimiter i = Some tb \<and> \<not> fst (fst (Allow tb tok now)) \<longrightarrow>
               StreamInterceptor i now srv stream info shandler e =
                 (Some (StatusError ResourceExhausted
                          ''rate limit exceeded, please try again later''),
                  i\<lparr>rateLimiter := Some (snd (Allow tb tok now))\<rparr>, e))
          \<and> (rateLimiter i = None \<longrightarrow>
               StreamInterceptor i now srv stream info shandler e =
                 (case ValidateJWT (ssoClient i) ctx tok e of
                    (Inl err, e1) \<Rightarrow>
                      (Some (StatusError Unauthenticated ''invalid or expired token''), i, e1)
                  | (Inr userResp, e1) \<Rightarrow>
                      (fst (shandler srv
                             (stream\<lparr>stream_Context := withIdentity ctx userResp tok\<rparr>) e1),
                       i,
                       snd (shandler srv
                             (stream\<lparr>stream_Context := withIdentity ctx userResp tok\<rparr>) e1)))))"
proof (intro conjI impI)
  note u = Unary_rate_limit_precedes_validation [OF assms, of now req handler e]
  show "\<forall>tb. rateLimiter i = Some tb \<and> \<not> fst (fst (Allow tb tok now)) \<longrightarrow>
            UnaryInterceptor i now ctx req info handler e =
              ((None, Some (StatusError ResourceExhausted
                              ''rate limit exceeded, please try again later'')),
               i\<lparr>rateLimiter := Some (snd (Allow tb tok now))\<rparr>, e)"
    using u by (rule conjunct1)
  assume "rateLimiter i = None"
  then show "UnaryInterceptor i now ctx req info handler e =
              (case ValidateJWT (ssoClient i) ctx tok e of
                 (Inl err, e1) \<Rightarrow>
                   ((None, Some (StatusError Unauthenticated ''invalid or expired token'')),
                    i, e1)
               | (Inr userResp, e1) \<Rightarrow>
                   (fst (handler (withIdentity ctx userResp tok) req e1), i,
                    snd (handler (withIdentity ctx userResp tok) req e1)))"
    using u by blast
next
  assume sc: "stream_Context stream = ctx"
  then have ex: "extractAccessToken (stream_Context stream) = Inr tok"
    using assms(2) by simp
  note st = Stream_rate_limit_precedes_validation [OF assms(1) ex, of now srv shandler e]
  show "\<forall>tb. rateLimiter i = Some tb \<and> \<not> fst (fst (Allow tb tok now)) \<longrightarrow>
               StreamInterceptor i now srv stream info shandler e =
                 (Some (StatusError ResourceExhausted
                          ''rate limit exceeded, please try again later''),
                  i\<lparr>rateLimiter := Some (snd (Allow tb tok now))\<rparr>, e)"
    using st by (rule conjunct1)
  assume "rateLimiter i = None"
  then show "StreamInterceptor i now srv stream info shandler e =
                 (case ValidateJWT (ssoClient i) ctx tok e of
                    (Inl err, e1) \<Rightarrow>
                      (Some (StatusError Unauthenticated ''invalid or expired token''), i, e1)
                  | (Inr userResp, e1) \<Rightarrow>
                      (fst (shandler srv
                             (stream\<lparr>stream_Context := withIdentity ctx userResp tok\<rparr>) e1),
                       i,
                       snd (shandler srv
                             (stream\<lparr>stream_Context := withIdentity ctx userResp tok\<rparr>) e1)))"
    using st [unfolded sc] by blast
qed

lemma Unary_identity_attached_iff_validated:
  assumes "\<not> map_index (publicMethods i) (FullMethod info)"
  shows "(\<forall>tok err e1. extractAccessToken ctx = Inr tok \<and> limiter_admits i tok now
               \<and> ValidateJWT (ssoClient i) ctx tok e = (Inl err, e1) \<longrightarrow>
            UnaryInterceptor i now ctx req info handler e =
              ((None, Some (StatusError Unauthenticated ''invalid or expired token'')),
               after_limiter i tok now, e1))
       \<and> (\<forall>tok userResp e1. extractAccessToken ctx = Inr tok \<and> limiter_admits i tok now
               \<and> ValidateJWT (ssoClient i) ctx tok e = (Inr userResp, e1) \<longrightarrow>
            UnaryInterceptor i now ctx req info handler e =
              (fst (handler (withIdentity ctx userResp tok) req e1),
               after_limiter i tok now,
               snd (handler (withIdentity ctx userResp tok) req e1))
          \<and> GetUserFromContext (withIdentity ctx userResp tok) = Some (newUserInfo userResp)
          \<and> GetAccessTokenFromContext (withIdentity ctx userResp tok) = Some tok)
       \<and> ((\<exists>err. extractAccessToken ctx = Inl err)
            \<or> (\<exists>tok. extractAccessToken ctx = Inr tok \<and> \<not> limiter_admits i tok now) \<longrightarrow>
            (\<forall>handler'. UnaryInterceptor i now ctx req info handler' e =
                         UnaryInterceptor i now ctx req info handler e)
          \<and> snd (snd (UnaryInterceptor i now ctx req info handler e)) = e)"
proof (intro conjI allI impI)
  fix tok err e1
  assume h: "extractAccessToken ctx = Inr tok \<and> limiter_admits i tok now
      \<and> ValidateJWT (ssoClient i) ctx tok e = (Inl err, e1)"
  show "UnaryInterceptor i now ctx req info handler e =
      ((None, Some (StatusError Unauthenticated ''invalid or expired token'')),
       after_limiter i tok now, e1)"
    using h by (intro Unary_validation_fails [OF assms]) simp_all
next
  fix tok userResp e1
  assume h: "extractAccessToken ctx = Inr tok \<and> limiter_admits i tok now
      \<and> ValidateJWT (ssoClient i) ctx tok e = (Inr userResp, e1)"
  show "UnaryInterceptor i now ctx req info handler e =
      (fst (handler (withIdentity ctx userResp tok) req e1),
       after_limiter i tok now,
       snd (handler (withIdentity ctx userResp tok) req e1))"
    using h by (intro Unary_validation_succeeds [OF assms]) simp_all
  show "GetUserFromContext (withIdentity ctx userResp tok) = Some (newUserInfo userResp)"
    by (simp add: GetUserFromContext_def withIdentity_def)
  show "GetAccessTokenFromContext (withIdentity ctx userResp tok) = Some tok"
    by (simp add: GetAccessTokenFromContext_def withIdentity_def)
next
  fix handler'
  assume h: "(\<exists>err. extractAccessToken ctx = Inl err)
      \<or> (\<exists>tok. extractAccessToken ctx = Inr tok \<and> \<not> limiter_admits i tok now)"
  then show "UnaryInterceptor i now ctx req info handler' e =
                 UnaryInterceptor i now ctx req info handler e"
    by (auto simp add: Unary_extract_fails [OF assms] Unary_rate_limited [OF assms])
next
  assume h: "(\<exists>err. extractAccessToken ctx = Inl err)
      \<or> (\<exists>tok. extractAccessToken ctx = Inr tok \<and> \<not> limiter_admits i tok now)"
  then show "snd (snd (UnaryInterceptor i now ctx req info handler e)) = e"
    by (auto simp add: Unary_extract_fails [OF assms] Unary_rate_limited [OF assms])
qed

lemma Stream_identity_attached_iff_validated:
  assumes "\<not> map_index (publicMethods i) (FullMethod info)"
  shows "(\<forall>tok err e1. extractAccessToken (stream_Context stream) = Inr tok
               \<and> limiter_admits i tok now
               \<and> ValidateJWT (ssoClient i) (stream_Context stream) tok e = (Inl err, e1) \<longrightarrow>
            StreamInterceptor i now srv stream info shandler e =
              (Some (StatusError Unauthenticated ''invalid or expired token''),
               after_limiter i tok now, e1))
       \<and> (\<forall>tok userResp e1. extractAccessToken (stream_Context stream) = Inr tok
               \<and> limiter_admits i tok now
               \<and> ValidateJWT (ssoClient i) (stream_Context stream) tok e = (Inr userResp, e1) \<longrightarrow>
            StreamInterceptor i now srv stream info shandler e =
              (fst (shandler srv
                     (stream\<lparr>stream_Context :=
                               withIdentity (stream_Context stream) userResp tok\<rparr>) e1),
               after_limiter i tok now,
               snd (shandler srv
                     (stream\<lparr>stream_Context :=
                               withIdentity (stream_Context stream) userResp tok\<rparr>) e1))
          \<and> GetUserFromContext
               (stream_Context (stream\<lparr>stream_Context :=
                                  withIdentity (stream_Context stream) userResp tok\<rparr>)) =
              Some (newUserInfo userResp)
          \<and> GetAccessTokenFromContext
               (stream_Context (stream\<lparr>stream_Context :=
                                  withIdentity (stream_Context stream) userResp tok\<rparr>)) =
              Some tok)
       \<and> ((\<exists>err. extractAccessToken (stream_Context stream) = Inl err)
            \<or> (\<exists>tok. extractAccessToken (stream_Context stream) = Inr tok
                  \<and> \<not> limiter_admits i tok now) \<longrightarrow>
            (\<forall>shandler'. StreamInterceptor i now srv stream info shandler' e =
                          StreamInterceptor i now srv stream info shandler e)
          \<and> snd (snd (StreamInterceptor i now srv stream info shandler e)) = e)"
proof (intro conjI allI impI)
  fix tok err e1
  assume h: "extractAccessToken (stream_Context stream) = Inr tok \<and> limiter_admits i tok now
      \<and> ValidateJWT (ssoClient i) (stream_Context stream) tok e = (Inl err, e1)"
  show "StreamInterceptor i now srv stream info shandler e =
      (Some (StatusError Unauthenticated ''invalid or expired token''),
       after_limiter i tok now, e1)"
    using h by (intro Stream_validation_fails [OF assms]) simp_all
next
  fix tok userResp e1
  assume h: "extractAccessToken (stream_Context stream) = Inr tok \<and> limiter_admits i tok now
      \<and> ValidateJWT (ssoClient i) (stream_Context stream) tok e = (Inr userResp, e1)"
  show "StreamInterceptor i now srv stream info shandler e =
      (fst (shandler srv
             (stream\<lparr>stream_Context :=
                       withIdentity (stream_Context stream) userResp tok\<rparr>) e1),
       after_limiter i tok now,
       snd (shandler srv
             (stream\<lparr>stream_Context :=
                       withIdentity (stream_Context stream) userResp tok\<rparr>) e1))"
    using h by (intro Stream_validation_succeeds [OF assms]) simp_all
  show "GetUserFromContext
          (stream_Context (stream\<lparr>stream_Context :=
                             withIdentity (stream_Context stream) userResp tok\<rparr>)) =
        Some (newUserInfo userResp)"
    by (simp add: GetUserFromContext_def withIdentity_def)
  show "GetAccessTokenFromContext
          (stream_Context (stream\<lparr>stream_Context :=
                             withIdentity (stream_Context stream) userResp tok\<rparr>)) =
        Some tok"
    by (simp add: GetAccessTokenFromContext_def withIdentity_def)
next
  fix shandler'
  assume h: "(\<exists>err. extractAccessToken (stream_Context stream) = Inl err)
      \<or> (\<exists>tok. extractAccessToken (stream_Context stream) = Inr tok
            \<and> \<not> limiter_admits i tok now)"
  then show "StreamInterceptor i now srv stream info shandler' e =
                 StreamInterceptor i now srv stream info shandler e"
    by (auto simp add: Stream_extract_fails [OF assms] Stream_rate_limited [OF assms])
next
  assume h: "(\<exists>err. extractAccessToken (stream_Context stream) = Inl err)
      \<or> (\<exists>tok. extractAccessToken (stream_Context stream) = Inr tok
            \<and> \<not> limiter_admits i tok now)"
  then show "snd (snd (StreamInterceptor i now srv stream info shandler e)) = e"
    by (auto simp add: Stream_extract_fails [OF assms] Stream_rate_limited [OF assms])
qed

text \<open>
  Claim C2. For a non-public call, unary or streaming, that reaches identity
  validation: if validation returns an error, the result is the unauthenticated error,
  whatever the cause, and the handler is not run; if validation succeeds, the handler
  is run on the context with the identity and the credential bound (for a stream, on
  the stream whose context accessor returns that context), and both can be read back
  from it. A non-public call that does not reach validation (the credential is
  malformed or the limiter rejects) never runs the handler either: its result does
  not depend on the handler and the outside state is unchanged. So the next stage
  receives a context with the identity exactly when validation succeeded.
\<close>

theorem identity_attached_iff_validated:
  assumes "\<not> map_index (publicMethods i) (FullMethod info)"
  shows "(\<forall>tok err e1. extractAccessToken ctx = Inr tok \<and> limiter_admits i tok now
               \<and> ValidateJWT (ssoClient i) ctx tok e = (Inl err, e1) \<longrightarrow>
            UnaryInterceptor i now ctx req info handler e =
              ((None, Some (StatusError Unauthenticated ''invalid or expired token'')),
               after_limiter i tok now, e1))
       \<and> (\<forall>tok userResp e1. extractAccessToken ctx = Inr tok \<and> limiter_admits i tok now
               \<and> ValidateJWT (ssoClient i) ctx tok e = (Inr userResp, e1) \<longrightarrow>
            UnaryInterceptor i now ctx req info handler e =
              (fst (handler (withIdentity ctx userResp tok) req e1),
               after_limiter i tok now,
               snd (handler (withIdentity ctx userResp tok) req e1))
          \<and> GetUserFromContext (withIdentity ctx userResp tok) = Some (newUserInfo userResp)
          \<and> GetAccessTokenFromContext (withIdentity ctx userResp tok) = Some tok)
       \<and> ((\<exists>err. extractAccessToken ctx = Inl err)
            \<or> (\<exists>tok. extractAccessToken ctx = Inr tok \<and> \<not> limiter_admits i tok now) \<longrightarrow>
            (\<forall>handler'. UnaryInterceptor i now ctx req info handler' e =
                         UnaryInterceptor i now ctx req info handler e)
          \<and> snd (snd (UnaryInterceptor i now ctx req info handler e)) = e)
       \<and> (\<forall>tok err e1. extractAccessToken (stream_Context stream) = Inr tok
               \<and> limiter_admits i tok now
               \<and> ValidateJWT (ssoClient i) (stream_Context stream) tok e = (Inl err, e1) \<longrightarrow>
            StreamInterceptor i now srv stream info shandler e =
              (Some (StatusError Unauthenticated ''invalid or expired token''),
               after_limiter i tok now, e1))
       \<and> (\<forall>tok userResp e1. extractAccessToken (stream_Context stream) = Inr tok
               \<and> limiter_admits i tok now
               \<and> ValidateJWT (ssoClient i) (stream_Context stream) tok e = (Inr userResp, e1) \<longrightarrow>
            StreamInterceptor i now srv stream info shandler e =
              (fst (shandler srv
                     (stream\<lparr>stream_Context :=
                               withIdentity (stream_Context stream) userResp tok\<rparr>) e1),
               after_limiter i tok now,
               snd (shandler srv
                     (stream\<lparr>stream_Context :=
                               withIdentity (stream_Context stream) userResp tok\<rparr>) e1))
          \<and> GetUserFromContext
               (stream_Context (stream\<lparr>stream_Context :=
                                  withIdentity (stream_Context stream) userResp tok\<rparr>)) =
              Some (newUserInfo userResp)
          \<and> GetAccessTokenFromContext
               (stream_Context (stream\<lparr>stream_Context :=
                                  withIdentity (stream_Context stream) userResp tok\<rparr>)) =
              Some tok)
       \<and> ((\<exists>err. extractAccessToken (stream_Context stream) = Inl err)
            \<or> (\<exists>tok. extractAccessToken (stream_Context stream) = Inr tok
                  \<and> \<not> limiter_admits i tok now) \<longrightarrow>
            (\<forall>shandler'. StreamInterceptor i now srv stream info shandler' e =
                          StreamInterceptor i now srv stream info shandler e)
          \<and> snd (snd (StreamInterceptor i now srv stream info shandler e)) = e)"
proof -
  note u = Unary_identity_attached_iff_validated [OF assms, of ctx now e req handler]
  note st = Stream_identity_attached_iff_validated [OF assms, of stream now e srv shandler]
  from u st show ?thesis
    by blast
qed

text \<open>
  Claim C10. A first authorization value that is exactly \<open>''Bearer ''\<close> yields the empty
  credential, and a non-public call then goes through the rate limiter and identity
  validation with the empty string as the key. Of several authorization values only
  the first is looked at: dropping the others does not change the extraction.
\<close>

theorem empty_bearer_credential_is_accepted:
  "(\<forall>md vs. incomingMD ctx = Some md \<and> md ''authorization'' = Some (''Bearer '' # vs) \<longrightarrow>
       extractAccessToken ctx = Inr []
     \<and> (\<not> map_index (publicMethods i) (FullMethod info) \<longrightarrow>
          UnaryInterceptor i now ctx req info handler e =
            (if \<not> limiter_admits i [] now
             then ((None, Some (StatusError ResourceExhausted
                                  ''rate limit exceeded, please try again later'')),
                   after_limiter i [] now, e)
             else
               case ValidateJWT (ssoClient i) ctx [] e of
                 (Inl err, e1) \<Rightarrow>
                   ((None, Some (StatusError Unauthenticated ''invalid or expired token'')),
                    after_limiter i [] now, e1)
               | (Inr userResp, e1) \<Rightarrow>
                   (fst (handler (withIdentity ctx userResp []) req e1),
                    after_limiter i [] now,
                    snd (handler (withIdentity ctx userResp []) req e1)))))
   \<and> (\<forall>md v vs. incomingMD ctx = Some md \<and> md ''authorization'' = Some (v # vs) \<longrightarrow>
        extractAccessToken ctx =
          extractAccessToken (ctx\<lparr>incomingMD := Some (md(''authorization'' \<mapsto> [v]))\<rparr>))"
proof (intro conjI allI impI)
  fix md vs
  assume h: "incomingMD ctx = Some md \<and> md ''authorization'' = Some (''Bearer '' # vs)"
  then show ex: "extractAccessToken ctx = Inr []"
    using extract_bearer [of ctx md "[]" vs] by simp
  assume "\<not> map_index (publicMethods i) (FullMethod info)"
  then show "UnaryInterceptor i now ctx req info handler e =
            (if \<not> limiter_admits i [] now
             then ((None, Some (StatusError ResourceExhausted
                                  ''rate limit exceeded, please try again later'')),
                   after_limiter i [] now, e)
             else
               case ValidateJWT (ssoClient i) ctx [] e of
                 (Inl err, e1) \<Rightarrow>
                   ((None, Some (StatusError Unauthenticated ''invalid or expired token'')),
                    after_limiter i [] now, e1)
               | (Inr userResp, e1) \<Rightarrow>
                   (fst (handler (withIdentity ctx userResp []) req e1),
                    after_limiter i [] now,
                    snd (handler (withIdentity ctx userResp []) req e1)))"
    using ex by (rule Unary_with_token)
next
  fix md v vs
  assume "incomingMD ctx = Some md \<and> md ''authorization'' = Some (v # vs)"
  then show "extractAccessToken ctx =
          extractAccessToken (ctx\<lparr>incomingMD := Some (md(''authorization'' \<mapsto> [v]))\<rparr>)"
    by (simp add: extractAccessToken_def md_Get_def)
qed

lemmas eval_interceptor =
  test_interceptor_def NewAuthInterceptor_def recording_client_def recording_handler_def
  recording_stream_handler_def map_index_def info_public_def info_private_def
  sample_stream_def no_md_ctx_def bearer_ctx_def

theorem public_method_bypass_witness:
  "map_index (publicMethods (test_interceptor (Inr alice) (Some tb_seen))) (FullMethod info_public)
   \<and> UnaryInterceptor (test_interceptor (Inr alice) (Some tb_seen)) 0 no_md_ctx ''req''
         info_public recording_handler [] =
       ((Some ''req'', None), test_interceptor (Inr alice) (Some tb_seen),
        [CalledHandler no_md_ctx])
   \<and> StreamInterceptor (test_interceptor (Inr alice) (Some tb_seen)) 0 () sample_stream
         info_public recording_stream_handler [] =
       (None, test_interceptor (Inr alice) (Some tb_seen), [CalledHandler no_md_ctx])"
proof -
  have pub: "map_index (publicMethods (test_interceptor (Inr alice) (Some tb_seen)))
               (FullMethod info_public)"
    by (simp add: eval_interceptor)
  show ?thesis
    using pub
      public_method_bypass [OF pub, of 0 no_md_ctx "''req''" recording_handler "[]"
        "()" sample_stream recording_stream_handler]
    by (simp add: recording_handler_def recording_stream_handler_def sample_stream_def)
qed

lemma np_test: "\<not> map_index (publicMethods (test_interceptor outcome rl)) (FullMethod info_private)"
  by (simp add: eval_interceptor)

lemma extract_tok1: "extractAccessToken (bearer_ctx [''Bearer tok1'']) = Inr ''tok1''"
  using extract_bearer [of "bearer_ctx [''Bearer tok1'']" "[''authorization'' \<mapsto> [''Bearer tok1'']]" "''tok1''" "[]"]
  by (simp add: bearer_ctx_def)

lemma extract_token_abc:
  "extractAccessToken (bearer_ctx [''Token abc'']) =
     Inl (StatusError Unauthenticated invalid_format_message)"
  by (simp add: extractAccessToken_def md_Get_def bearer_ctx_def HasPrefix_def)

lemma Allow_tb_seen_now0: "Allow tb_seen ''tok1'' 0 = ((False, 0), tb_seen)"
  by (simp add: tb_seen_def eval_limiter eval_float)

lemma rateLimiter_test: "rateLimiter (test_interceptor outcome rl) = rl"
  and ssoClient_test: "ssoClient (test_interceptor outcome rl) = recording_client outcome"
  by (simp_all add: eval_interceptor)

lemma test_interceptor_limiter:
  "(test_interceptor outcome rl)\<lparr>rateLimiter := rl'\<rparr> = test_interceptor outcome rl'"
  by (simp add: eval_interceptor)

lemma ValidateJWT_recording:
  "ValidateJWT (recording_client (Inr r)) ctx tok e =
     (Inr r, e @ [CalledValidateJWT (contextWithAccessToken ctx tok)])"
  "ValidateJWT (recording_client (Inl err)) ctx tok e =
     (Inl (Wrapped ''clients.sso.ValidateJWT'' err), e @ [CalledValidateJWT (contextWithAccessToken ctx tok)])"
  by (simp_all add: ValidateJWT_def recording_client_def)

lemma bearer_stream_simps:
  "stream_Context (bearer_stream vs) = bearer_ctx vs"
  "stream_Context sample_stream = no_md_ctx"
  "(bearer_stream vs)\<lparr>stream_Context := c\<rparr> = \<lparr>stream_Context = c, stream_rest = ()\<rparr>"
  by (simp_all add: bearer_stream_def sample_stream_def)

theorem malformed_credential_rejected_witness:
  "\<not> map_index (publicMethods (test_interceptor (Inr alice) (Some tb_seen))) (FullMethod info_private)
   \<and> UnaryInterceptor (test_interceptor (Inr alice) (Some tb_seen)) 0 no_md_ctx ''req''
         info_private recording_handler [] =
       ((None, Some (StatusError Unauthenticated ''missing metadata'')),
        test_interceptor (Inr alice) (Some tb_seen), [])
   \<and> UnaryInterceptor (test_interceptor (Inr alice) (Some tb_seen)) 0 (bearer_ctx []) ''req''
         info_private recording_handler [] =
       ((None, Some (StatusError Unauthenticated ''missing authorization header'')),
        test_interceptor (Inr alice) (Some tb_seen), [])
   \<and> UnaryInterceptor (test_interceptor (Inr alice) (Some tb_seen)) 0
         (bearer_ctx [''Token abc'']) ''req'' info_private recording_handler [] =
       ((None, Some (StatusError Unauthenticated invalid_format_message)),
        test_interceptor (Inr alice) (Some tb_seen), [])
   \<and> extractAccessToken (bearer_ctx [''Bearer abc'']) = Inr ''abc''
   \<and> StreamInterceptor (test_interceptor (Inr alice) (Some tb_seen)) 0 () sample_stream
         info_private recording_stream_handler [] =
       (Some (StatusError Unauthenticated ''missing metadata''),
        test_interceptor (Inr alice) (Some tb_seen), [])
   \<and> StreamInterceptor (test_interceptor (Inr alice) (Some tb_seen)) 0 () (bearer_stream [])
         info_private recording_stream_handler [] =
       (Some (StatusError Unauthenticated ''missing authorization header''),
        test_interceptor (Inr alice) (Some tb_seen), [])
   \<and> StreamInterceptor (test_interceptor (Inr alice) (Some tb_seen)) 0 ()
         (bearer_stream [''Token abc'']) info_private recording_stream_handler [] =
       (Some (StatusError Unauthenticated invalid_format_message),
        test_interceptor (Inr alice) (Some tb_seen), [])"
proof -
  note np = np_test [of "Inr alice" "Some tb_seen"]
  note inst = malformed_credential_rejected [OF np, where now = 0 and req = "''req''"
      and handler = recording_handler and e = "[]" and srv = "()"
      and shandler = recording_stream_handler]
  have a: "UnaryInterceptor (test_interceptor (Inr alice) (Some tb_seen)) 0 no_md_ctx ''req''
         info_private recording_handler [] =
       ((None, Some (StatusError Unauthenticated ''missing metadata'')),
        test_interceptor (Inr alice) (Some tb_seen), [])"
    using inst [where ctx = no_md_ctx and stream = sample_stream]
    by (simp add: no_md_ctx_def)
  have b: "UnaryInterceptor (test_interceptor (Inr alice) (Some tb_seen)) 0 (bearer_ctx []) ''req''
         info_private recording_handler [] =
       ((None, Some (StatusError Unauthenticated ''missing authorization header'')),
        test_interceptor (Inr alice) (Some tb_seen), [])"
    using inst [where ctx = "bearer_ctx []" and stream = sample_stream]
    by (simp add: bearer_ctx_def)
  have c: "UnaryInterceptor (test_interceptor (Inr alice) (Some tb_seen)) 0
         (bearer_ctx [''Token abc'']) ''req'' info_private recording_handler [] =
       ((None, Some (StatusError Unauthenticated invalid_format_message)),
        test_interceptor (Inr alice) (Some tb_seen), [])"
    using inst [where ctx = "bearer_ctx [''Token abc'']" and stream = sample_stream]
    by (simp add: bearer_ctx_def)
  have d: "extractAccessToken (bearer_ctx [''Bearer abc'']) = Inr ''abc''"
    using inst [where ctx = "bearer_ctx [''Bearer abc'']" and stream = sample_stream]
    by (simp add: bearer_ctx_def)
  have sa: "StreamInterceptor (test_interceptor (Inr alice) (Some tb_seen)) 0 () sample_stream
         info_private recording_stream_handler [] =
       (Some (StatusError Unauthenticated ''missing metadata''),
        test_interceptor (Inr alice) (Some tb_seen), [])"
    using inst [where ctx = no_md_ctx and stream = sample_stream]
    by (simp add: bearer_stream_simps no_md_ctx_def)
  have sb: "StreamInterceptor (test_interceptor (Inr alice) (Some tb_seen)) 0 () (bearer_stream [])
         info_private recording_stream_handler [] =
       (Some (StatusError Unauthenticated ''missing authorization header''),
        test_interceptor (Inr alice) (Some tb_seen), [])"
    using inst [where ctx = no_md_ctx and stream = "bearer_stream []"]
    by (simp add: bearer_stream_simps bearer_ctx_def)
  have sc: "StreamInterceptor (test_interceptor (Inr alice) (Some tb_seen)) 0 ()
         (bearer_stream [''Token abc'']) info_private recording_stream_handler [] =
       (Some (StatusError Unauthenticated invalid_format_message),
        test_interceptor (Inr alice) (Some tb_seen), [])"
    using inst [where ctx = no_md_ctx and stream = "bearer_stream [''Token abc'']"]
    by (simp add: bearer_stream_simps bearer_ctx_def)
  from np a b c d sa sb sc show ?thesis
    by blast
qed

theorem rate_limit_precedes_validation_witness:
  "\<not> map_index (publicMethods (test_interceptor (Inr alice) (Some tb_seen))) (FullMethod info_private)
   \<and> extractAccessToken (bearer_ctx [''Bearer tok1'']) = Inr ''tok1''
   \<and> \<not> fst (fst (Allow tb_seen ''tok1'' 0))
   \<and> UnaryInterceptor (test_interceptor (Inr alice) (Some tb_seen)) 0
         (bearer_ctx [''Bearer tok1'']) ''req'' info_private recording_handler [] =
       ((None, Some (StatusError ResourceExhausted
                       ''rate limit exceeded, please try again later'')),
        test_interceptor (Inr alice) (Some tb_seen), [])
   \<and> UnaryInterceptor (test_interceptor (Inr alice) None) 0
         (bearer_ctx [''Bearer tok1'']) ''req'' info_private recording_handler [] =
       ((Some ''req'', None), test_interceptor (Inr alice) None,
        [CalledValidateJWT (contextWithAccessToken (bearer_ctx [''Bearer tok1'']) ''tok1''),
         CalledHandler (withIdentity (bearer_ctx [''Bearer tok1'']) alice ''tok1'')])
   \<and> StreamInterceptor (test_interceptor (Inr alice) (Some tb_seen)) 0 ()
         (bearer_stream [''Bearer tok1'']) info_private recording_stream_handler [] =
       (Some (StatusError ResourceExhausted ''rate limit exceeded, please try again later''),
        test_interceptor (Inr alice) (Some tb_seen), [])
   \<and> StreamInterceptor (test_interceptor (Inr alice) None) 0 ()
         (bearer_stream [''Bearer tok1'']) info_private recording_stream_handler [] =
       (None, test_interceptor (Inr alice) None,
        [CalledValidateJWT (contextWithAccessToken (bearer_ctx [''Bearer tok1'']) ''tok1''),
         CalledHandler (withIdentity (bearer_ctx [''Bearer tok1'']) alice ''tok1'')])"
proof -
  have rej: "\<not> fst (fst (Allow tb_seen ''tok1'' 0))"
    by (simp add: Allow_tb_seen_now0)
  note limited = rate_limit_precedes_validation
      [OF np_test [of "Inr alice" "Some tb_seen"] extract_tok1,
        where now = 0 and e = "[]" and req = "''req''" and handler = recording_handler
          and srv = "()" and stream = "bearer_stream [''Bearer tok1'']"
          and shandler = recording_stream_handler]
  note unlimited = rate_limit_precedes_validation
      [OF np_test [of "Inr alice" None] extract_tok1,
        where now = 0 and e = "[]" and req = "''req''" and handler = recording_handler
          and srv = "()" and stream = "bearer_stream [''Bearer tok1'']"
          and shandler = recording_stream_handler]
  have a: "UnaryInterceptor (test_interceptor (Inr alice) (Some tb_seen)) 0
         (bearer_ctx [''Bearer tok1'']) ''req'' info_private recording_handler [] =
       ((None, Some (StatusError ResourceExhausted
                       ''rate limit exceeded, please try again later'')),
        test_interceptor (Inr alice) (Some tb_seen), [])"
    using limited rej
    by (simp add: rateLimiter_test Allow_tb_seen_now0 test_interceptor_limiter)
  have b: "UnaryInterceptor (test_interceptor (Inr alice) None) 0
         (bearer_ctx [''Bearer tok1'']) ''req'' info_private recording_handler [] =
       ((Some ''req'', None), test_interceptor (Inr alice) None,
        [CalledValidateJWT (contextWithAccessToken (bearer_ctx [''Bearer tok1'']) ''tok1''),
         CalledHandler (withIdentity (bearer_ctx [''Bearer tok1'']) alice ''tok1'')])"
    using unlimited
    by (simp add: rateLimiter_test ssoClient_test ValidateJWT_recording recording_handler_def)
  have sa: "StreamInterceptor (test_interceptor (Inr alice) (Some tb_seen)) 0 ()
         (bearer_stream [''Bearer tok1'']) info_private recording_stream_handler [] =
       (Some (StatusError ResourceExhausted ''rate limit exceeded, please try again later''),
        test_interceptor (Inr alice) (Some tb_seen), [])"
    using limited rej
    by (simp add: rateLimiter_test Allow_tb_seen_now0 test_interceptor_limiter
        bearer_stream_simps)
  have sb: "StreamInterceptor (test_interceptor (Inr alice) None) 0 ()
         (bearer_stream [''Bearer tok1'']) info_private recording_stream_handler [] =
       (None, test_interceptor (Inr alice) None,
        [CalledValidateJWT (contextWithAccessToken (bearer_ctx [''Bearer tok1'']) ''tok1''),
         CalledHandler (withIdentity (bearer_ctx [''Bearer tok1'']) alice ''tok1'')])"
    using unlimited
    by (simp add: rateLimiter_test ssoClient_test ValidateJWT_recording
        recording_stream_handler_def bearer_stream_simps)
  from np_test extract_tok1 rej a b sa sb show ?thesis
    by blast
qed

theorem identity_attached_iff_validated_witness:
  "\<not> map_index (publicMethods (test_interceptor (Inl (External ''expired'')) None)) (FullMethod info_private)
   \<and> UnaryInterceptor (test_interceptor (Inl (External ''expired'')) None) 0
         (bearer_ctx [''Bearer tok1'']) ''req'' info_private recording_handler [] =
       ((None, Some (StatusError Unauthenticated ''invalid or expired token'')),
        test_interceptor (Inl (External ''expired'')) None,
        [CalledValidateJWT (contextWithAccessToken (bearer_ctx [''Bearer tok1'']) ''tok1'')])
   \<and> UnaryInterceptor (test_interceptor (Inr alice) None) 0
         (bearer_ctx [''Bearer tok1'']) ''req'' info_private recording_handler [] =
       ((Some ''req'', None), test_interceptor (Inr alice) None,
        [CalledValidateJWT (contextWithAccessToken (bearer_ctx [''Bearer tok1'']) ''tok1''),
         CalledHandler (withIdentity (bearer_ctx [''Bearer tok1'']) alice ''tok1'')])
   \<and> GetUserFromContext (withIdentity (bearer_ctx [''Bearer tok1'']) alice ''tok1'') =
       Some (newUserInfo alice)
   \<and> snd (snd (UnaryInterceptor (test_interceptor (Inr alice) None) 0
         (bearer_ctx [''Token abc'']) ''req'' info_private recording_handler [])) = []
   \<and> StreamInterceptor (test_interceptor (Inl (External ''expired'')) None) 0 ()
         (bearer_stream [''Bearer tok1'']) info_private recording_stream_handler [] =
       (Some (StatusError Unauthenticated ''invalid or expired token''),
        test_interceptor (Inl (External ''expired'')) None,
        [CalledValidateJWT (contextWithAccessToken (bearer_ctx [''Bearer tok1'']) ''tok1'')])
   \<and> StreamInterceptor (test_interceptor (Inr alice) None) 0 ()
         (bearer_stream [''Bearer tok1'']) info_private recording_stream_handler [] =
       (None, test_interceptor (Inr alice) None,
        [CalledValidateJWT (contextWithAccessToken (bearer_ctx [''Bearer tok1'']) ''tok1''),
         CalledHandler (withIdentity (bearer_ctx [''Bearer tok1'']) alice ''tok1'')])
   \<and> snd (snd (StreamInterceptor (test_interceptor (Inr alice) None) 0 ()
         (bearer_stream [''Token abc'']) info_private recording_stream_handler [])) = []"
proof -
  have adm: "limiter_admits (test_interceptor outcome None) ''tok1'' 0"
    and aft: "after_limiter (test_interceptor outcome None) ''tok1'' 0 = test_interceptor outcome None"
    for outcome
    by (simp_all add: limiter_admits_def after_limiter_def rateLimiter_test)
  note failing = identity_attached_iff_validated
      [OF np_test [of "Inl (External ''expired'')" None],
        where ctx = "bearer_ctx [''Bearer tok1'']" and now = 0 and e = "[]" and req = "''req''"
          and handler = recording_handler and srv = "()"
          and stream = "bearer_stream [''Bearer tok1'']"
          and shandler = recording_stream_handler]
  note passing = identity_attached_iff_validated
      [OF np_test [of "Inr alice" None],
        where ctx = "bearer_ctx [''Bearer tok1'']" and now = 0 and e = "[]" and req = "''req''"
          and handler = recording_handler and srv = "()"
          and stream = "bearer_stream [''Bearer tok1'']"
          and shandler = recording_stream_handler]
  note malformed = identity_attached_iff_validated
      [OF np_test [of "Inr alice" None],
        where ctx = "bearer_ctx [''Token abc'']" and now = 0 and e = "[]" and req = "''req''"
          and handler = recording_handler and srv = "()"
          and stream = "bearer_stream [''Token abc'']"
          and shandler = recording_stream_handler]
  have a: "UnaryInterceptor (test_interceptor (Inl (External ''expired'')) None) 0
         (bearer_ctx [''Bearer tok1'']) ''req'' info_private recording_handler [] =
       ((None, Some (StatusError Unauthenticated ''invalid or expired token'')),
        test_interceptor (Inl (External ''expired'')) None,
        [CalledValidateJWT (contextWithAccessToken (bearer_ctx [''Bearer tok1'']) ''tok1'')])"
    using failing
    by (simp add: extract_tok1 adm aft ssoClient_test ValidateJWT_recording bearer_stream_simps)
  have b: "UnaryInterceptor (test_interceptor (Inr alice) None) 0
         (bearer_ctx [''Bearer tok1'']) ''req'' info_private recording_handler [] =
       ((Some ''req'', None), test_interceptor (Inr alice) None,
        [CalledValidateJWT (contextWithAccessToken (bearer_ctx [''Bearer tok1'']) ''tok1''),
         CalledHandler (withIdentity (bearer_ctx [''Bearer tok1'']) alice ''tok1'')])
     \<and> GetUserFromContext (withIdentity (bearer_ctx [''Bearer tok1'']) alice ''tok1'') =
       Some (newUserInfo alice)"
    using passing
    by (simp add: extract_tok1 adm aft ssoClient_test ValidateJWT_recording
        recording_handler_def bearer_stream_simps)
  have c: "snd (snd (UnaryInterceptor (test_interceptor (Inr alice) None) 0
         (bearer_ctx [''Token abc'']) ''req'' info_private recording_handler [])) = []"
    using malformed
    by (simp add: extract_token_abc bearer_stream_simps)
  have sa: "StreamInterceptor (test_interceptor (Inl (External ''expired'')) None) 0 ()
         (bearer_stream [''Bearer tok1'']) info_private recording_stream_handler [] =
       (Some (StatusError Unauthenticated ''invalid or expired token''),
        test_interceptor (Inl (External ''expired'')) None,
        [CalledValidateJWT (contextWithAccessToken (bearer_ctx [''Bearer tok1'']) ''tok1'')])"
    using failing
    by (simp add: extract_tok1 adm aft ssoClient_test ValidateJWT_recording bearer_stream_simps)
  have sb: "StreamInterceptor (test_interceptor (Inr alice) None) 0 ()
         (bearer_stream [''Bearer tok1'']) info_private recording_stream_handler [] =
       (None, test_interceptor (Inr alice) None,
        [CalledValidateJWT (contextWithAccessToken (bearer_ctx [''Bearer tok1'']) ''tok1''),
         CalledHandler (withIdentity (bearer_ctx [''Bearer tok1'']) alice ''tok1'')])"
    using passing
    by (simp add: extract_tok1 adm aft ssoClient_test ValidateJWT_recording
        recording_stream_handler_def bearer_stream_simps)
  have sc: "snd (snd (StreamInterceptor (test_interceptor (Inr alice) None) 0 ()
         (bearer_stream [''Token abc'']) info_private recording_stream_handler [])) = []"
    using malformed
    by (simp add: extract_token_abc bearer_stream_simps)
  from np_test a b c sa sb sc show ?thesis
    by blast
qed

theorem empty_bearer_credential_is_accepted_witness:
  "extractAccessToken (bearer_ctx [''Bearer '', ''Bearer other'']) = Inr []
   \<and> UnaryInterceptor (test_interceptor (Inr alice) (Some (New DefaultConfig))) 0
         (bearer_ctx [''Bearer '', ''Bearer other'']) ''req'' info_private recording_handler [] =
       ((Some ''req'', None),
        test_interceptor (Inr alice)
          (Some ((New DefaultConfig)\<lparr>buckets := [[] \<mapsto> \<lparr>tokens = 19, lastUpdate = 0\<rparr>]\<rparr>)),
        [CalledValidateJWT
           (contextWithAccessToken (bearer_ctx [''Bearer '', ''Bearer other'']) []),
         CalledHandler (withIdentity (bearer_ctx [''Bearer '', ''Bearer other'']) alice [])])
   \<and> extractAccessToken (bearer_ctx [''Bearer '', ''Bearer other'']) =
       extractAccessToken (bearer_ctx [''Bearer ''])"
proof -
  have allow: "Allow (New DefaultConfig) [] 0 =
      ((True, 19), (New DefaultConfig)\<lparr>buckets := [[] \<mapsto> \<lparr>tokens = 19, lastUpdate = 0\<rparr>]\<rparr>)"
    by (simp add: eval_limiter eval_float)
  have adm: "limiter_admits (test_interceptor (Inr alice) (Some (New DefaultConfig))) [] 0"
    and aft: "after_limiter (test_interceptor (Inr alice) (Some (New DefaultConfig))) [] 0 =
       test_interceptor (Inr alice)
          (Some ((New DefaultConfig)\<lparr>buckets := [[] \<mapsto> \<lparr>tokens = 19, lastUpdate = 0\<rparr>]\<rparr>))"
    by (simp_all add: limiter_admits_def after_limiter_def rateLimiter_test allow
        test_interceptor_limiter)
  note inst = empty_bearer_credential_is_accepted
      [where ctx = "bearer_ctx [''Bearer '', ''Bearer other'']"
         and i = "test_interceptor (Inr alice) (Some (New DefaultConfig))"
         and info = info_private and now = 0 and req = "''req''"
         and handler = recording_handler and e = "[]"]
  have md: "incomingMD (bearer_ctx [''Bearer '', ''Bearer other'']) =
        Some [''authorization'' \<mapsto> [''Bearer '', ''Bearer other'']]
      \<and> [''authorization'' \<mapsto> [''Bearer '', ''Bearer other'']] ''authorization'' =
        Some (''Bearer '' # [''Bearer other''])"
    by (simp add: bearer_ctx_def)
  have one: "(bearer_ctx [''Bearer '', ''Bearer other''])
        \<lparr>incomingMD := Some ([''authorization'' \<mapsto> [''Bearer '', ''Bearer other'']]
                                 (''authorization'' \<mapsto> [''Bearer '']))\<rparr> =
      bearer_ctx [''Bearer '']"
    by (simp add: bearer_ctx_def)
  from inst md have a: "extractAccessToken (bearer_ctx [''Bearer '', ''Bearer other'']) = Inr []"
    by blast
  from inst md np_test [of "Inr alice" "Some (New DefaultConfig)"]
  have "UnaryInterceptor (test_interceptor (Inr alice) (Some (New DefaultConfig))) 0
         (bearer_ctx [''Bearer '', ''Bearer other'']) ''req'' info_private recording_handler [] =
       (if \<not> limiter_admits (test_interceptor (Inr alice) (Some (New DefaultConfig))) [] 0
             then ((None, Some (StatusError ResourceExhausted
                                  ''rate limit exceeded, please try again later'')),
                   after_limiter (test_interceptor (Inr alice) (Some (New DefaultConfig))) [] 0, [])
             else
               case ValidateJWT (ssoClient (test_interceptor (Inr alice) (Some (New DefaultConfig))))
                      (bearer_ctx [''Bearer '', ''Bearer other'']) [] [] of
                 (Inl err, e1) \<Rightarrow>
                   ((None, Some (StatusError Unauthenticated ''invalid or expired token'')),
                    after_limiter (test_interceptor (Inr alice) (Some (New DefaultConfig))) [] 0, e1)
               | (Inr userResp, e1) \<Rightarrow>
                   (fst (recording_handler (withIdentity (bearer_ctx [''Bearer '', ''Bearer other'']) userResp []) ''req'' e1),
                    after_limiter (test_interceptor (Inr alice) (Some (New DefaultConfig))) [] 0,
                    snd (recording_handler (withIdentity (bearer_ctx [''Bearer '', ''Bearer other'']) userResp []) ''req'' e1)))"
    by blast
  then have b: "UnaryInterceptor (test_interceptor (Inr alice) (Some (New DefaultConfig))) 0
         (bearer_ctx [''Bearer '', ''Bearer other'']) ''req'' info_private recording_handler [] =
       ((Some ''req'', None),
        test_interceptor (Inr alice)
          (Some ((New DefaultConfig)\<lparr>buckets := [[] \<mapsto> \<lparr>tokens = 19, lastUpdate = 0\<rparr>]\<rparr>)),
        [CalledValidateJWT
           (contextWithAccessToken (bearer_ctx [''Bearer '', ''Bearer other'']) []),
         CalledHandler (withIdentity (bearer_ctx [''Bearer '', ''Bearer other'']) alice [])])"
    by (simp add: adm aft ssoClient_test ValidateJWT_recording recording_handler_def)
  from inst md have "extractAccessToken (bearer_ctx [''Bearer '', ''Bearer other'']) =
      extractAccessToken ((bearer_ctx [''Bearer '', ''Bearer other''])
        \<lparr>incomingMD := Some ([''authorization'' \<mapsto> [''Bearer '', ''Bearer other'']]
                                 (''authorization'' \<mapsto> [''Bearer '']))\<rparr>)"
    by blast
  then have c: "extractAccessToken (bearer_ctx [''Bearer '', ''Bearer other'']) =
       extractAccessToken (bearer_ctx [''Bearer ''])"
    by (simp only: one)
  from a b c show ?thesis
    by blast
qed

section \<open>Properties of the chain builder\<close>

lemma spec_nested_append:
  "spec_nested (xs @ ys) info H = spec_nested xs info (spec_nested ys info H)"
  by (induction xs) simp_all

lemma chainUnary_loop_nested:
  "n \<le> length its \<Longrightarrow> chainUnary_loop its info n h = spec_nested (take n its) info h"
proof (induction n arbitrary: h)
  case 0
  then show ?case by simp
next
  case (Suc n)
  then have lt: "n < length its" by simp
  have "chainUnary_loop its info (Suc n) h =
          chainUnary_loop its info n (\<lambda>c q. (its ! n) c q info h)"
    by (simp add: Let_def)
  also have "\<dots> = spec_nested (take n its) info (\<lambda>c q. (its ! n) c q info h)"
    using Suc.IH lt by simp
  also have "\<dots> = spec_nested (take n its) info (spec_nested [its ! n] info h)"
    by simp
  also have "\<dots> = spec_nested (take (Suc n) its) info h"
    using lt by (simp add: take_Suc_conv_app_nth spec_nested_append)
  finally show ?case .
qed

lemma chainStream_loop_nested:
  "n \<le> length its \<Longrightarrow> chainStream_loop its info n h = spec_nested (take n its) info h"
proof (induction n arbitrary: h)
  case 0
  then show ?case by simp
next
  case (Suc n)
  then have lt: "n < length its" by simp
  have "chainStream_loop its info (Suc n) h =
          chainStream_loop its info n (\<lambda>c q. (its ! n) c q info h)"
    by (simp add: Let_def)
  also have "\<dots> = spec_nested (take n its) info (\<lambda>c q. (its ! n) c q info h)"
    using Suc.IH lt by simp
  also have "\<dots> = spec_nested (take n its) info (spec_nested [its ! n] info h)"
    by simp
  also have "\<dots> = spec_nested (take (Suc n) its) info h"
    using lt by (simp add: take_Suc_conv_app_nth spec_nested_append)
  finally show ?case .
qed

lemma chainUnary_nested:
  "chainUnaryInterceptors its ctx req info H = spec_nested its info H ctx req"
  by (simp add: chainUnaryInterceptors_def chainUnary_loop_nested)

lemma chainStream_nested:
  "chainStreamInterceptors its srv stream info H = spec_nested its info H srv stream"
  by (simp add: chainStreamInterceptors_def chainStream_loop_nested)

text \<open>
  Claim C8. The entry point built from the interceptors \<open>I1, ..., In\<close> and applied to a
  terminal handler \<open>H\<close> is the nested application in which the first interceptor of
  the list is outermost and every layer is given the same \<open>info\<close>; with no interceptor
  it is \<open>H\<close> itself. The streaming builder satisfies the same equations.
\<close>

theorem chain_is_nested_application:
  "chainUnaryInterceptors interceptors ctx req info H = spec_nested interceptors info H ctx req
   \<and> chainStreamInterceptors interceptors srv stream info H =
       spec_nested interceptors info H srv stream
   \<and> chainUnaryInterceptors [] ctx req info H = H ctx req
   \<and> chainUnaryInterceptors (I1 # rest) ctx req info H =
       I1 ctx req info (\<lambda>c q. chainUnaryInterceptors rest c q info H)
   \<and> chainStreamInterceptors (I1 # rest) srv stream info H =
       I1 srv stream info (\<lambda>c q. chainStreamInterceptors rest c q info H)
   \<and> chainUnaryInterceptors [I1, I2, I3] ctx req info H =
       I1 ctx req info (\<lambda>c2 q2. I2 c2 q2 info (\<lambda>c3 q3. I3 c3 q3 info H))"
  by (simp add: chainUnary_nested chainStream_nested)

section \<open>Properties of the identity client's constructor\<close>

lemma sso_New_dials_once:
  "sso_New DialContext now ctx cfg e =
     (case DialContext (context_WithTimeout ctx now (Timeout cfg)) (Address cfg)
             (if Insecure cfg then [WithTransportCredentials_insecure] else []) e of
        (Inl err, e') \<Rightarrow>
          (Inl (Wrapped ''clients.sso.New: failed to connect to SSO service'' err), e')
      | (Inr conn, e') \<Rightarrow> (Inr conn, e'))"
  by (simp add: sso_New_def Let_def split: prod.splits sum.splits)

lemma sso_New_fails_iff_dial_fails:
  "(\<exists>err. fst (sso_New DialContext now ctx cfg e) = Inl err) \<longleftrightarrow>
   (\<exists>err. fst (DialContext (context_WithTimeout ctx now (Timeout cfg)) (Address cfg)
             (if Insecure cfg then [WithTransportCredentials_insecure] else []) e) = Inl err)"
  by (auto simp add: sso_New_dials_once split: prod.splits sum.splits)

lemma sso_New_never_blocks:
  "sso_New (grpc_DialContext net now) now ctx cfg e =
     (if Insecure cfg
      then (Inr (Connecting (Address cfg)),
            e @ [Dialed (context_WithTimeout ctx now (Timeout cfg)) (Address cfg)
                   [WithTransportCredentials_insecure]])
      else (Inl (Wrapped ''clients.sso.New: failed to connect to SSO service''
                   (External ''grpc: no transport security set'')),
            e @ [Dialed (context_WithTimeout ctx now (Timeout cfg)) (Address cfg) []]))"
  by (simp add: sso_New_dials_once grpc_DialContext_def Let_def)

text \<open>
  Claim C9. At an address that cannot be reached, with a timeout of five seconds,
  \<^verbatim>\<open>sso.New\<close> dials once, with the deadline \<open>now + timeout\<close> and without \<^verbatim>\<open>WithBlock\<close>,
  and returns a client and no error although nothing is connected; \<^verbatim>\<open>app.New\<close>
  therefore keeps the client. The deadline never bounds the connection setup.
\<close>

theorem sso_New_returns_unconnected_client:
  "sso_New (grpc_DialContext unreachable_net 0) 0 None unreachable_config [] =
     (Inr (Connecting ''10.255.255.1:50051''),
      [Dialed (Some 5000000000) ''10.255.255.1:50051'' [WithTransportCredentials_insecure]])
   \<and> unreachable_net ''10.255.255.1:50051'' = None
   \<and> fst (app_New_ssoClient (grpc_DialContext unreachable_net 0) 0 ''10.255.255.1:50051''
             (5 * Second) True []) =
       Some (Connecting ''10.255.255.1:50051'')"
  by (simp add: sso_New_def app_New_ssoClient_def grpc_DialContext_def unreachable_net_def
      unreachable_config_def context_WithTimeout_def Second_def Let_def)

end
